theory Spec2Isabelle
  imports Main
begin

section \<open>Python strings\<close>

text \<open>
  A Python \<open>str\<close> is modelled as an Isabelle \<open>string\<close>; a character stands for the
  code point of the same number, so the model covers text whose code points are below 256.
  The character classes below are those of Python on that range.
\<close>

fun startswith :: "string \<Rightarrow> string \<Rightarrow> bool" where
  "startswith s [] = True"
| "startswith [] (p # ps) = False"
| "startswith (c # cs) (p # ps) = (c = p \<and> startswith cs ps)"

definition endswith :: "string \<Rightarrow> string \<Rightarrow> bool" where
  "endswith s p = startswith (rev s) (rev p)"

text \<open>\<open>sub in s\<close> for two strings: \<open>sub\<close> occurs in \<open>s\<close> as a contiguous piece.\<close>

fun contains :: "string \<Rightarrow> string \<Rightarrow> bool" where
  "contains [] sub = (sub = [])"
| "contains (c # cs) sub = (startswith (c # cs) sub \<or> contains cs sub)"

text \<open>\<open>s.replace(a, b)\<close> for one-character \<open>a\<close> and \<open>b\<close>.\<close>

definition replace_char :: "char \<Rightarrow> char \<Rightarrow> string \<Rightarrow> string" where
  "replace_char a b s = map (\<lambda>c. if c = a then b else c) s"

text \<open>\<open>s.split(sep)\<close> for a one-character separator: empty pieces are kept.\<close>

fun split_on :: "char \<Rightarrow> string \<Rightarrow> string list" where
  "split_on sep [] = [[]]"
| "split_on sep (c # cs) =
     (if c = sep then [] # split_on sep cs
      else (case split_on sep cs of
              [] \<Rightarrow> [[c]]
            | w # ws \<Rightarrow> (c # w) # ws))"

definition isspace_char :: "char \<Rightarrow> bool" where
  "isspace_char c = (c \<in> set [CHR 0x09, CHR 0x0A, CHR 0x0B, CHR 0x0C, CHR 0x0D,
     CHR 0x1C, CHR 0x1D, CHR 0x1E, CHR 0x1F, CHR 0x20, CHR 0x85, CHR 0xA0])"

definition strip :: "string \<Rightarrow> string" where
  "strip s = rev (dropWhile isspace_char (rev (dropWhile isspace_char s)))"

definition isnumeric_char :: "char \<Rightarrow> bool" where
  "isnumeric_char c = (c \<in> set ''0123456789'' \<or>
     c \<in> set [CHR 0xB2, CHR 0xB3, CHR 0xB9, CHR 0xBC, CHR 0xBD, CHR 0xBE])"

text \<open>\<open>s.isnumeric()\<close>: at least one character, and all of them numeric.\<close>

definition isnumeric :: "string \<Rightarrow> bool" where
  "isnumeric s = (s \<noteq> [] \<and> list_all isnumeric_char s)"

definition is_linebreak :: "char \<Rightarrow> bool" where
  "is_linebreak c = (c \<in> set [CHR 0x0A, CHR 0x0B, CHR 0x0C, CHR 0x0D,
     CHR 0x1C, CHR 0x1D, CHR 0x1E, CHR 0x85])"

text \<open>
  \<open>s.splitlines()\<close>: the first argument is the line read so far. A carriage return
  followed by a line feed ends one line; text after the last line break is a line of
  its own when it is not empty.
\<close>

fun splitlines_from :: "string \<Rightarrow> string \<Rightarrow> string list" where
  "splitlines_from acc [] = (if acc = [] then [] else [acc])"
| "splitlines_from acc [c] = (if is_linebreak c then [acc] else [acc @ [c]])"
| "splitlines_from acc (c # d # cs) =
     (if c = CHR 0x0D \<and> d = CHR 0x0A then acc # splitlines_from [] cs
      else if is_linebreak c then acc # splitlines_from [] (d # cs)
      else splitlines_from (acc @ [c]) (d # cs))"

definition splitlines :: "string \<Rightarrow> string list" where
  "splitlines s = splitlines_from [] s"

text \<open>\<open>sep.join(ws)\<close>.\<close>

fun str_join :: "string \<Rightarrow> string list \<Rightarrow> string" where
  "str_join sep [] = []"
| "str_join sep [w] = w"
| "str_join sep (w # v # ws) = w @ sep @ str_join sep (v # ws)"

section \<open>Style directives of a source file\<close>

text \<open>
  The words of an \<open>ignore\<close> line that are kept: \<open>w[1:].isnumeric() and w[0] in 'EWFCN'\<close>.
  The second test is only evaluated when the first holds, hence on a word of at least
  two characters.
\<close>

definition code_shaped :: "string \<Rightarrow> bool" where
  "code_shaped w = (isnumeric (drop 1 w) \<and>
     (case w of [] \<Rightarrow> False | c # _ \<Rightarrow> c \<in> set ''EWFCN''))"

definition ignore_words :: "string \<Rightarrow> string list" where
  "ignore_words line =
     (let words = split_on CHR '' '' (replace_char CHR '','' CHR '' '' line);
          words = [strip w. w \<leftarrow> words, strip w \<noteq> []];
          words = [w \<leftarrow> words. code_shaped w]
      in words)"

text \<open>The body of the loop over the lines, on the pair \<open>(skip, ignores)\<close>.\<close>

definition scan_line :: "string \<Rightarrow> bool \<times> string list \<Rightarrow> bool \<times> string list" where
  "scan_line line st =
     (if startswith line ''# styletest:'' then
        (if contains line ''skip'' then (True, snd st)
         else if contains line ''ignore'' then (fst st, snd st @ ignore_words line)
         else st)
      else st)"

text \<open>
  \<open>for i, line in enumerate(lines): if i > 20: break; ...\<close>, started at index \<open>i\<close>.
\<close>

fun scan_lines :: "nat \<Rightarrow> string list \<Rightarrow> bool \<times> string list \<Rightarrow> bool \<times> string list" where
  "scan_lines i [] st = st"
| "scan_lines i (line # rest) st =
     (if i > 20 then st else scan_lines (Suc i) rest (scan_line line st))"

text \<open>
  \<open>_get_style_test_options\<close>, on the decoded text of the file (reading and decoding the
  file is done by the caller of this function in the model).
\<close>

definition get_style_test_options :: "string \<Rightarrow> bool \<times> string list" where
  "get_style_test_options text = scan_lines 0 (splitlines text) (False, [])"

text \<open>\<open>'%i' % n\<close> for a count \<open>n\<close>: the decimal numeral.\<close>

fun show_nat :: "nat \<Rightarrow> string" where
  "show_nat n =
     (if n < 10 then [''0123456789'' ! n]
      else show_nat (n div 10) @ [''0123456789'' ! (n mod 10)])"

declare show_nat.simps [simp del]

section \<open>POSIX paths\<close>

text \<open>
  \<open>os.path\<close> on a POSIX system (\<open>posixpath\<close>): \<open>join\<close>, \<open>normpath\<close>, \<open>abspath\<close> and
  \<open>relpath\<close>. The working directory that \<open>abspath\<close> reads is an argument.
\<close>

datatype exit_code = NoCode | IntCode int | ObjCode string

datatype exn =
    RuntimeError string
  | ValueError string
  | AttributeError string
  | SystemExit exit_code
  | KeyboardInterrupt
  | OtherException string
  | OtherBaseException string

text \<open>
  \<open>isinstance(e, Exception)\<close>: \<open>SystemExit\<close>, \<open>KeyboardInterrupt\<close> and classes derived
  from \<open>BaseException\<close> alone are not instances of \<open>Exception\<close>.
\<close>

fun is_Exception :: "exn \<Rightarrow> bool" where
  "is_Exception (RuntimeError m) = True"
| "is_Exception (ValueError m) = True"
| "is_Exception (AttributeError m) = True"
| "is_Exception (SystemExit c) = False"
| "is_Exception KeyboardInterrupt = False"
| "is_Exception (OtherException n) = True"
| "is_Exception (OtherBaseException n) = False"

definition path_join2 :: "string \<Rightarrow> string \<Rightarrow> string" where
  "path_join2 a b =
     (if startswith b ''/'' then b
      else if a = [] \<or> endswith a ''/'' then a @ b
      else a @ ''/'' @ b)"

definition path_join :: "string \<Rightarrow> string list \<Rightarrow> string" where
  "path_join a ps = foldl path_join2 a ps"

fun norm_comps :: "nat \<Rightarrow> string list \<Rightarrow> string list \<Rightarrow> string list" where
  "norm_comps init new [] = new"
| "norm_comps init new (part # rest) =
     (if part = [] \<or> part = ''.'' then norm_comps init new rest
      else if part \<noteq> ''..'' \<or> (init = 0 \<and> new = []) \<or> (new \<noteq> [] \<and> last new = ''..'')
        then norm_comps init (new @ [part]) rest
      else if new \<noteq> [] then norm_comps init (butlast new) rest
      else norm_comps init new rest)"

definition normpath :: "string \<Rightarrow> string" where
  "normpath path =
     (if path = [] then ''.''
      else
        let init = (if startswith path ''/'' then
                      (if startswith path ''//'' \<and> \<not> startswith path ''///'' then 2 else 1)
                    else 0);
            comps = norm_comps init [] (split_on CHR ''/'' path);
            p = replicate init CHR ''/'' @ str_join ''/'' comps
        in if p = [] then ''.'' else p)"

definition abspath :: "string \<Rightarrow> string \<Rightarrow> string" where
  "abspath cwd path =
     normpath (if startswith path ''/'' then path else path_join2 cwd path)"

fun common_len :: "string list \<Rightarrow> string list \<Rightarrow> nat" where
  "common_len (x # xs) (y # ys) = (if x = y then Suc (common_len xs ys) else 0)"
| "common_len xs ys = 0"

definition relpath :: "string \<Rightarrow> string \<Rightarrow> string \<Rightarrow> exn + string" where
  "relpath cwd path start =
     (if path = [] then Inl (ValueError ''no path specified'')
      else
        let start_list = [x \<leftarrow> split_on CHR ''/'' (abspath cwd start). x \<noteq> []];
            path_list = [x \<leftarrow> split_on CHR ''/'' (abspath cwd path). x \<noteq> []];
            i = common_len start_list path_list;
            rel_list = replicate (length start_list - i) ''..'' @ drop i path_list
        in Inr (case rel_list of [] \<Rightarrow> ''.'' | a # ps \<Rightarrow> path_join a ps))"

section \<open>Process state\<close>

text \<open>
  \<open>sys.stdout\<close> is either the stream the process started with or a \<open>FileForTesting\<close>
  wrapped around another target. What reaches the first is recorded in \<open>out_written\<close>,
  one entry for each \<open>write\<close>, and its flushes are counted.

  \<open>sys.argv\<close> is a reference to a list object: \<open>heap\<close> maps the addresses of list
  objects to their contents, so that two names for one object share its updates.

  \<open>tool_log\<close> records each invocation of the style checker's entry point; no function of
  the program reads it.
\<close>

datatype out_target = Console | FileForTesting out_target

record tool_call =
  call_file :: string
  call_ignore :: string
  call_argv :: "string list"
  call_cwd :: string

record pstate =
  cwd :: string
  sys_argv :: nat
  heap :: "nat \<Rightarrow> string list"
  sys_stdout :: out_target
  out_written :: "string list"
  out_flushes :: nat
  sys_modules :: "string list"
  tool_log :: "tool_call list"

type_synonym 'a res = "(exn + 'a) \<times> pstate"

text \<open>Sequencing: an exception of the first step ends the run with the state it left.\<close>

definition seq :: "'a res \<Rightarrow> ('a \<Rightarrow> pstate \<Rightarrow> 'b res) \<Rightarrow> 'b res" where
  "seq r f = (case r of (Inl e, s) \<Rightarrow> (Inl e, s) | (Inr x, s) \<Rightarrow> f x s)"

section \<open>The output proxy\<close>

fun flush_out :: "out_target \<Rightarrow> pstate \<Rightarrow> unit res" where
  "flush_out Console s = (Inr (), s\<lparr>out_flushes := Suc (out_flushes s)\<rparr>)"
| "flush_out (FileForTesting orig) s = flush_out orig s"

text \<open>
  \<open>target.write(msg)\<close>. For a \<open>FileForTesting\<close> this is its \<open>write\<close> method: a message
  that starts with \<open>ROOT_DIR\<close> is replaced by \<open>os.path.relpath(msg, ROOT_DIR)\<close>, then
  written to the wrapped target, which is flushed.
\<close>

fun write_out :: "string \<Rightarrow> out_target \<Rightarrow> string \<Rightarrow> pstate \<Rightarrow> unit res" where
  "write_out root Console msg s = (Inr (), s\<lparr>out_written := out_written s @ [msg]\<rparr>)"
| "write_out root (FileForTesting orig) msg s =
     (if startswith msg root then
        (case relpath (cwd s) msg root of
           Inl e \<Rightarrow> (Inl e, s)
         | Inr m \<Rightarrow> seq (write_out root orig m s) (\<lambda>_. flush_out orig))
      else seq (write_out root orig msg s) (\<lambda>_. flush_out orig))"

text \<open>\<open>print(msg)\<close>: the text, then the line end, each by a \<open>write\<close> to \<open>sys.stdout\<close>.\<close>

definition py_print :: "string \<Rightarrow> string \<Rightarrow> pstate \<Rightarrow> unit res" where
  "py_print root msg s =
     seq (write_out root (sys_stdout s) msg s)
         (\<lambda>_ s'. write_out root (sys_stdout s') [CHR 0x0A] s')"

text \<open>
  \<open>sys.stdout.revert()\<close>: the method of \<open>FileForTesting\<close> makes the wrapped target the
  standard output again; the stream of the process has no such method.
\<close>

definition revert :: "pstate \<Rightarrow> unit res" where
  "revert s =
     (case sys_stdout s of
        Console \<Rightarrow> (Inl (AttributeError ''revert''), s)
      | FileForTesting orig \<Rightarrow> (Inr (), s\<lparr>sys_stdout := orig\<rparr>))"

section \<open>The style checker\<close>

text \<open>
  The entry point \<open>main\<close> of the style-checking tool is not part of the program. It is a
  parameter: from \<open>sys.argv\<close> and the working directory it decides what it writes to
  \<open>sys.stdout\<close> and how it ends, by returning (\<open>None\<close>) or by raising.
  \<open>None\<close> for the tool itself stands for a failing \<open>from flake8.main import main\<close>.
\<close>

record tool_run =
  run_writes :: "string list"
  run_outcome :: "exn option"

type_synonym tool = "string list \<Rightarrow> string \<Rightarrow> tool_run"

fun write_all :: "string \<Rightarrow> string list \<Rightarrow> pstate \<Rightarrow> unit res" where
  "write_all root [] s = (Inr (), s)"
| "write_all root (m # ms) s =
     seq (write_out root (sys_stdout s) m s) (\<lambda>_ s'. write_all root ms s')"

definition run_main :: "string \<Rightarrow> tool \<Rightarrow> pstate \<Rightarrow> unit res" where
  "run_main root main s =
     (let r = main (heap s (sys_argv s)) (cwd s)
      in seq (write_all root (run_writes r) s)
             (\<lambda>_ s'. case run_outcome r of None \<Rightarrow> (Inr (), s') | Some e \<Rightarrow> (Inl e, s')))"

datatype ignore_arg = IgnoreList "string list" | IgnoreStr string

text \<open>
  \<open>_test_style(filename, ignore)\<close>. The result \<open>None\<close> is the function ending without
  a \<open>return\<close>, when \<open>main\<close> returns instead of raising \<open>SystemExit\<close>. The two
  assignments of the \<open>finally\<close> block are applied to the state whatever the outcome.
\<close>

definition test_style_file ::
  "string \<Rightarrow> tool option \<Rightarrow> string \<Rightarrow> ignore_arg \<Rightarrow> pstate \<Rightarrow> bool option res" where
  "test_style_file root tool filename ignore s =
     (let ign = (case ignore of IgnoreList ws \<Rightarrow> str_join '','' ws | IgnoreStr x \<Rightarrow> x);
          orig_dir = cwd s;
          orig_argv = sys_argv s;
          s1 = s\<lparr>cwd := root\<rparr>;
          s2 = s1\<lparr>heap := (heap s1)(sys_argv s1 := take 1 (heap s1 (sys_argv s1)) @ [filename])\<rparr>;
          s3 = s2\<lparr>heap := (heap s2)(sys_argv s2 := heap s2 (sys_argv s2) @ [''--ignore='' @ ign])\<rparr>;
          (r, s4) =
            (case tool of
               None \<Rightarrow> (Inl (OtherException ''ImportError''), s3)
             | Some main \<Rightarrow>
                 (case run_main root main
                         (s3\<lparr>tool_log := tool_log s3 @
                            [\<lparr>call_file = filename, call_ignore = ign,
                              call_argv = heap s3 (sys_argv s3), call_cwd = cwd s3\<rparr>]\<rparr>) of
                    (Inr _, s') \<Rightarrow> (Inr None, s')
                  | (Inl e, s') \<Rightarrow>
                      (case e of
                         SystemExit code \<Rightarrow> (Inr (Some (\<not> (code = NoCode \<or> code = IntCode 0))), s')
                       | _ \<Rightarrow> (Inl e, s'))));
          s5 = s4\<lparr>cwd := orig_dir\<rparr>;
          s6 = s5\<lparr>heap := (heap s5)(sys_argv s5 := heap s5 orig_argv)\<rparr>
      in (r, s6))"

definition style_ignores :: "string list" where
  "style_ignores = [''E226'', ''E241'', ''E265'', ''W291'', ''W293'']"

definition exclude_dirs :: "string list" where
  "exclude_dirs = [''.git'', ''docs'', ''build'', ''dist'', ''__pycache__'']"

text \<open>
  The loop over the file names of one directory, on the pair \<open>(fail, count)\<close>.
  \<open>read_text\<close> is \<open>open(filename, 'rb').read().decode('utf-8')\<close>, which can raise.
\<close>

fun style_files ::
  "string \<Rightarrow> tool option \<Rightarrow> (string \<Rightarrow> exn + string) \<Rightarrow> string \<Rightarrow> string list \<Rightarrow>
   bool \<times> nat \<Rightarrow> pstate \<Rightarrow> (bool \<times> nat) res" where
  "style_files root tool read_text dir [] fc s = (Inr fc, s)"
| "style_files root tool read_text dir (fname # rest) fc s =
     (if endswith fname ''.py'' then
        (let filename = path_join root [dir, fname] in
         case read_text filename of
           Inl e \<Rightarrow> (Inl e, s)
         | Inr text \<Rightarrow>
             (let (skip, extra_ignores) = get_style_test_options text in
              if skip then style_files root tool read_text dir rest fc s
              else
                seq (test_style_file root tool filename
                       (IgnoreList (style_ignores @ extra_ignores)) s)
                  (\<lambda>thisfail s1.
                     seq (if thisfail = Some True then py_print root ''----'' s1 else (Inr (), s1))
                       (\<lambda>_ s2.
                          seq (flush_out (sys_stdout s2) s2)
                            (\<lambda>_ s3. style_files root tool read_text dir rest
                                       (fst fc \<or> thisfail = Some True, Suc (snd fc)) s3)))))
      else style_files root tool read_text dir rest fc s)"

text \<open>
  The loop over what \<open>os.walk(ROOT_DIR)\<close> yields: triples of a directory, its
  subdirectory names and its file names.
\<close>

fun style_walk ::
  "string \<Rightarrow> tool option \<Rightarrow> (string \<Rightarrow> exn + string) \<Rightarrow>
   (string \<times> string list \<times> string list) list \<Rightarrow> bool \<times> nat \<Rightarrow> pstate \<Rightarrow> (bool \<times> nat) res" where
  "style_walk root tool read_text [] fc s = (Inr fc, s)"
| "style_walk root tool read_text ((dir, dirnames, filenames) # rest) fc s =
     (case relpath (cwd s) dir root of
        Inl e \<Rightarrow> (Inl e, s)
      | Inr d \<Rightarrow>
          if set exclude_dirs \<inter> set (split_on CHR ''/'' d) \<noteq> {}
          then style_walk root tool read_text rest fc s
          else seq (style_files root tool read_text d filenames fc s)
                 (\<lambda>fc' s'. style_walk root tool read_text rest fc' s'))"

definition test_style ::
  "string \<Rightarrow> tool option \<Rightarrow> (string \<Rightarrow> exn + string) \<Rightarrow>
   (string \<times> string list \<times> string list) list \<Rightarrow> pstate \<Rightarrow> unit res" where
  "test_style root tool read_text walk s =
     (case tool of
        None \<Rightarrow> py_print root ''Skipping flake8 test, flake8 not installed'' s
      | Some main \<Rightarrow>
          seq (py_print root (''Running flake8 on '' @ root) s)
            (\<lambda>_ s1.
               seq (style_walk root tool read_text walk (False, 0)
                      (s1\<lparr>sys_stdout := FileForTesting (sys_stdout s1)\<rparr>))
                 (\<lambda>fc s3.
                    seq (revert s3)
                      (\<lambda>_ s4.
                         if snd fc = 0 then
                           (Inl (RuntimeError ''    Arg! flake8 did not check any files''), s4)
                         else if fst fc then
                           (Inl (RuntimeError (''    Arg! flake8 failed (checked '' @
                                   show_nat (snd fc) @ '' files)'')), s4)
                         else py_print root (''    Hooray! flake8 passed (checked '' @
                                   show_nat (snd fc) @ '' files)'') s4))))"

section \<open>The suite runner\<close>

definition clear_imageio :: "pstate \<Rightarrow> pstate" where
  "clear_imageio s = s\<lparr>sys_modules := [k \<leftarrow> sys_modules s. \<not> startswith k ''imageio'']\<rparr>"

text \<open>
  \<open>_enable_faulthandler\<close>; \<open>has_faulthandler\<close> tells whether importing and enabling the
  module succeed. An exception of the first \<open>print\<close> that is an \<open>Exception\<close> is handled
  like a failing import.
\<close>

definition enable_faulthandler :: "string \<Rightarrow> bool \<Rightarrow> pstate \<Rightarrow> unit res" where
  "enable_faulthandler root has_faulthandler s =
     (if has_faulthandler then
        (case py_print root ''Faulthandler enabled'' s of
           (Inr u, s') \<Rightarrow> (Inr u, s')
         | (Inl e, s') \<Rightarrow>
             if is_Exception e then py_print root ''Could not enable faulthandler'' s'
             else (Inl e, s'))
      else py_print root ''Could not enable faulthandler'' s)"

text \<open>
  \<open>test_unit\<close>. The test runner's \<open>main\<close> is a parameter that may change the whole
  state; it returns an exit code or raises.
\<close>

definition test_unit ::
  "string \<Rightarrow> bool \<Rightarrow> (string \<Rightarrow> pstate \<Rightarrow> int res) \<Rightarrow> string \<Rightarrow> pstate \<Rightarrow> int res" where
  "test_unit root has_faulthandler pytest_main cov_report s =
     (let orig_dir = cwd s;
          s1 = s\<lparr>cwd := root\<rparr>;
          (r, s2) =
            seq (enable_faulthandler root has_faulthandler (clear_imageio s1))
              (\<lambda>_ s'. pytest_main (''-v --cov imageio --cov-config .coveragerc '' @
                                    ''--cov-report '' @ cov_report @ '' tests'') s')
      in (r, s2\<lparr>cwd := orig_dir\<rparr>))"

section \<open>The patched runner call\<close>

text \<open>
  A traceback is the list of its frames, outermost first; \<open>tb.tb_next\<close> is its tail and
  the empty list is Python's \<open>None\<close>. The three debugging slots of \<open>sys\<close> are unset
  (\<open>None\<close> here) until something stores into them.
\<close>

type_synonym traceback = "string list"

record slots =
  last_type :: "string option"
  last_value :: "exn option"
  last_traceback :: "traceback option"

fun exn_type :: "exn \<Rightarrow> string" where
  "exn_type (RuntimeError m) = ''RuntimeError''"
| "exn_type (ValueError m) = ''ValueError''"
| "exn_type (AttributeError m) = ''AttributeError''"
| "exn_type (SystemExit c) = ''SystemExit''"
| "exn_type KeyboardInterrupt = ''KeyboardInterrupt''"
| "exn_type (OtherException n) = n"
| "exn_type (OtherBaseException n) = n"

text \<open>
  \<open>pytest_runtest_call(item)\<close>. The original call \<open>runner.pytest_runtest_call_orig\<close> is a
  parameter: it returns, or raises an exception with the traceback of the frames below
  the wrapper. The wrapper's own frame comes first in the traceback it sees and in the
  one it lets through.
\<close>

definition wrapper_frame :: string where
  "wrapper_frame = ''pytest_runtest_call''"

definition pytest_runtest_call ::
  "('item \<Rightarrow> slots \<Rightarrow> (exn \<times> traceback) option \<times> slots) \<Rightarrow> 'item \<Rightarrow> slots \<Rightarrow>
   (exn \<times> traceback) option \<times> slots" where
  "pytest_runtest_call pytest_runtest_call_orig item d =
     (case pytest_runtest_call_orig item d of
        (None, d') \<Rightarrow> (None, d')
      | (Some (value, tb_below), d') \<Rightarrow>
          if is_Exception value then
            (let tb = wrapper_frame # tb_below;
                 tb = tl tb
             in (Some (value, wrapper_frame # tb_below),
                 d'\<lparr>last_type := Some (exn_type value), last_value := Some value,
                    last_traceback := Some tb\<rparr>))
          else (Some (value, wrapper_frame # tb_below), d'))"

section \<open>The test directory\<close>

text \<open>
  The file system is a table from paths to what is there, a file or a directory; paths
  are the strings the program builds, without repeated or trailing separators.
\<close>

datatype node = File | Dir

type_synonym filesys = "(string \<times> node) list"

definition isdir :: "filesys \<Rightarrow> string \<Rightarrow> bool" where
  "isdir fs p = (map_of fs p = Some Dir)"

text \<open>\<open>q\<close> lies inside the directory \<open>p\<close>.\<close>

definition inside :: "string \<Rightarrow> string \<Rightarrow> bool" where
  "inside p q = startswith q (p @ ''/'')"

definition ancestors :: "string \<Rightarrow> string list" where
  "ancestors p = [take i p. i \<leftarrow> [1..<length p], p ! i = CHR ''/'']"

text \<open>\<open>shutil.rmtree(p)\<close> removes a directory and all that lies inside it.\<close>

definition rmtree :: "filesys \<Rightarrow> string \<Rightarrow> exn + filesys" where
  "rmtree fs p =
     (if isdir fs p then Inr [(q, k) \<leftarrow> fs. \<not> (q = p \<or> inside p q)]
      else Inl (OtherException ''OSError''))"

text \<open>
  \<open>os.makedirs(p)\<close> creates the directory and the missing directories above it; it
  raises when something is at \<open>p\<close> already or a file is in the way.
\<close>

definition makedirs :: "filesys \<Rightarrow> string \<Rightarrow> exn + filesys" where
  "makedirs fs p =
     (if map_of fs p \<noteq> None then Inl (OtherException ''FileExistsError'')
      else if list_ex (\<lambda>a. map_of fs a = Some File) (ancestors p)
        then Inl (OtherException ''NotADirectoryError'')
      else Inr ((p, Dir) # [(a, Dir). a \<leftarrow> ancestors p, map_of fs a = None] @ fs))"

datatype exit_hook = RmtreeTestDir

record dstate =
  the_test_dir :: "string option"
  disk :: filesys
  atexit_hooks :: "exit_hook list"

text \<open>
  \<open>get_test_dir()\<close>. \<open>appdata_dir\<close> of \<open>imageio.core\<close> is a parameter: it returns a path or
  raises, and may change the file system.
\<close>

definition get_test_dir ::
  "(string \<Rightarrow> filesys \<Rightarrow> (exn + string) \<times> filesys) \<Rightarrow> dstate \<Rightarrow> (exn + string) \<times> dstate" where
  "get_test_dir appdata_dir d =
     (case the_test_dir d of
        Some p \<Rightarrow> (Inr p, d)
      | None \<Rightarrow>
          (case appdata_dir ''imageio'' (disk d) of
             (Inl e, fs1) \<Rightarrow> (Inl e, d\<lparr>disk := fs1\<rparr>)
           | (Inr base, fs1) \<Rightarrow>
               (let p = path_join base [''testdir''];
                    d1 = d\<lparr>disk := fs1, the_test_dir := Some p\<rparr>
                in case (if isdir (disk d1) p then rmtree (disk d1) p else Inr (disk d1)) of
                     Inl e \<Rightarrow> (Inl e, d1)
                   | Inr fs2 \<Rightarrow>
                       (case makedirs fs2 p of
                          Inl e \<Rightarrow> (Inl e, d1\<lparr>disk := fs2\<rparr>)
                        | Inr fs3 \<Rightarrow>
                            (Inr p, d1\<lparr>disk := fs3,
                                       atexit_hooks := atexit_hooks d1 @ [RmtreeTestDir]\<rparr>)))))"

text \<open>A directory that exists and has nothing inside.\<close>

definition empty_dir :: "filesys \<Rightarrow> string \<Rightarrow> bool" where
  "empty_dir fs p = (isdir fs p \<and> \<not> list_ex (\<lambda>(q, k). inside p q) fs)"

text \<open>
  The two kinds of directive line, as the loop body tells them apart: a line that starts
  with the marker and contains \<open>skip\<close>, and a line that starts with the marker, does not
  contain \<open>skip\<close> and contains \<open>ignore\<close>.
\<close>

definition is_skip_line :: "string \<Rightarrow> bool" where
  "is_skip_line l = (startswith l ''# styletest:'' \<and> contains l ''skip'')"

definition is_ignore_line :: "string \<Rightarrow> bool" where
  "is_ignore_line l =
     (startswith l ''# styletest:'' \<and> \<not> contains l ''skip'' \<and> contains l ''ignore'')"

section \<open>Example inputs\<close>

text \<open>A process started as \<open>prog -v\<close> in \<open>/home\<close>, writing to its own standard output.\<close>

definition example_state :: pstate where
  "example_state =
     \<lparr>cwd = ''/home'', sys_argv = 0, heap = (\<lambda>_. [])(0 := [''prog'', ''-v'']),
      sys_stdout = Console, out_written = [], out_flushes = 0,
      sys_modules = [''os'', ''imageio'', ''imageio.core''], tool_log = []\<rparr>"

text \<open>A test runner that changes the working directory and returns the exit code 3.\<close>

definition example_pytest_main :: "string \<Rightarrow> pstate \<Rightarrow> int res" where
  "example_pytest_main args s = (Inr 3, s\<lparr>cwd := ''/proj/tests''\<rparr>)"

text \<open>A style checker that reports one finding for the file it is given and exits with 1.\<close>

definition example_tool :: tool where
  "example_tool argv dir =
     \<lparr>run_writes = [argv ! 1 @ '':1: E1 bad'', [CHR 0x0A]],
      run_outcome = Some (SystemExit (IntCode 1))\<rparr>"

definition empty_slots :: slots where
  "empty_slots = \<lparr>last_type = None, last_value = None, last_traceback = None\<rparr>"

section \<open>Notions used in the statements\<close>

text \<open>Two states that differ at most in what was written to the output and its flushes.\<close>

definition same_but_output :: "pstate \<Rightarrow> pstate \<Rightarrow> bool" where
  "same_but_output s s' =
     (cwd s' = cwd s \<and> sys_argv s' = sys_argv s \<and> heap s' = heap s \<and>
      sys_stdout s' = sys_stdout s \<and> sys_modules s' = sys_modules s \<and>
      tool_log s' = tool_log s)"

text \<open>The text that \<open>_test_style\<close> puts after \<open>--ignore=\<close>.\<close>

definition ignore_string :: "ignore_arg \<Rightarrow> string" where
  "ignore_string ignore = (case ignore of IgnoreList ws \<Rightarrow> str_join '','' ws | IgnoreStr x \<Rightarrow> x)"

text \<open>
  The invocation of the tool that \<open>_test_style\<close> makes for a file when it is called in
  state \<open>s\<close>, and whether the tool ends that invocation with an exit code other than
  \<open>None\<close> and 0.
\<close>

definition call_of :: "string \<Rightarrow> string \<Rightarrow> string \<Rightarrow> pstate \<Rightarrow> tool_call" where
  "call_of root filename ign s =
     \<lparr>call_file = filename, call_ignore = ign,
      call_argv = take 1 (heap s (sys_argv s)) @ [filename, ''--ignore='' @ ign],
      call_cwd = root\<rparr>"

definition reports_failure :: "tool \<Rightarrow> tool_call \<Rightarrow> bool" where
  "reports_failure main c =
     (case run_outcome (main (call_argv c) (call_cwd c)) of
        Some (SystemExit code) \<Rightarrow> \<not> (code = NoCode \<or> code = IntCode 0)
      | _ \<Rightarrow> False)"

text \<open>
  A recorded invocation that is the check of a file read without a skip directive: the
  tool was run in the root directory, the last two arguments are the file and
  \<open>--ignore=\<close> followed by the fixed codes and the file's own ignore words, and at most
  one argument precedes them.
\<close>

definition checked_call :: "string \<Rightarrow> (string \<Rightarrow> exn + string) \<Rightarrow> tool_call \<Rightarrow> bool" where
  "checked_call root read_text c =
     (case read_text (call_file c) of
        Inl e \<Rightarrow> False
      | Inr text \<Rightarrow>
          \<not> fst (get_style_test_options text) \<and>
          call_ignore c = str_join '','' (style_ignores @ snd (get_style_test_options text)) \<and>
          call_cwd c = root \<and>
          length (call_argv c) \<le> 3 \<and>
          drop (length (call_argv c) - 2) (call_argv c) =
            [call_file c, ''--ignore='' @ call_ignore c])"

text \<open>
  The files a walk is expected to check: in each directory that is not excluded, the
  names that end in \<open>.py\<close> and whose text has no skip directive, joined to the root.
\<close>

definition files_of_dir ::
  "string \<Rightarrow> (string \<Rightarrow> exn + string) \<Rightarrow> string \<Rightarrow> string list \<Rightarrow> string list" where
  "files_of_dir root read_text d fnames =
     [path_join root [d, fname]. fname \<leftarrow> fnames, endswith fname ''.py'',
        (case read_text (path_join root [d, fname]) of
           Inl e \<Rightarrow> False
         | Inr text \<Rightarrow> \<not> fst (get_style_test_options text))]"

definition checked_files ::
  "string \<Rightarrow> string \<Rightarrow> (string \<Rightarrow> exn + string) \<Rightarrow>
   (string \<times> string list \<times> string list) list \<Rightarrow> string list" where
  "checked_files root dir0 read_text walk =
     concat (map (\<lambda>(dir, dirnames, filenames).
        case relpath dir0 dir root of
          Inl e \<Rightarrow> []
        | Inr d \<Rightarrow>
            if set exclude_dirs \<inter> set (split_on CHR ''/'' d) \<noteq> {} then []
            else files_of_dir root read_text d filenames) walk)"

text \<open>
  What a part of the walk does, from state \<open>s\<close> with tally \<open>fc\<close> to state \<open>s'\<close> with
  result \<open>r\<close>: it appends the invocations \<open>new\<close> to the record and leaves the working
  directory, the argument list object and the output target as they were; when it ends
  with a tally, the count grew by the number of invocations, the failure flag is set when
  it was set before or one of them reports a failure, and the files are \<open>files\<close>.
\<close>

definition walk_effect ::
  "string \<Rightarrow> tool \<Rightarrow> (string \<Rightarrow> exn + string) \<Rightarrow> bool \<times> nat \<Rightarrow> pstate \<Rightarrow>
   exn + bool \<times> nat \<Rightarrow> pstate \<Rightarrow> tool_call list \<Rightarrow> string list \<Rightarrow> bool" where
  "walk_effect root main read_text fc s r s' new files =
     (cwd s' = cwd s \<and> sys_argv s' = sys_argv s \<and> sys_stdout s' = sys_stdout s \<and>
      tool_log s' = tool_log s @ new \<and>
      list_all (checked_call root read_text) new \<and>
      (case r of
         Inl e \<Rightarrow> True
       | Inr fc' \<Rightarrow>
           snd fc' = snd fc + length new \<and>
           fst fc' = (fst fc \<or> list_ex (reports_failure main) new) \<and>
           map call_file new = files))"

text \<open>A tool whose every invocation ends by returning or by raising \<open>SystemExit\<close>.\<close>

definition ends_by_exit :: "tool \<Rightarrow> bool" where
  "ends_by_exit main =
     (\<forall>argv dir. case run_outcome (main argv dir) of
        None \<Rightarrow> True
      | Some e \<Rightarrow> (case e of SystemExit code \<Rightarrow> True | _ \<Rightarrow> False))"
text \<open>
  A tree with three source files: \<open>a.py\<close> has an ignore directive, \<open>b.py\<close> a skip
  directive followed by an ignore directive, and \<open>docs/d.py\<close> lies in an excluded
  directory.
\<close>

definition example_walk :: "(string \<times> string list \<times> string list) list" where
  "example_walk =
     [(''/proj'', [''docs''], [''a.py'', ''b.py'', ''c.txt'']),
      (''/proj/docs'', [], [''d.py''])]"

definition example_read :: "string \<Rightarrow> exn + string" where
  "example_read f =
     Inr (if f = ''/proj/./a.py'' then ''# styletest: ignore E501,x''
          else ''# styletest: skip'' @ [CHR 0x0A] @ ''# styletest: ignore E501'')"

text \<open>A file whose ignore directive names \<open>E\<close> followed by the character U+00BD.\<close>

definition example_fraction_read :: "string \<Rightarrow> exn + string" where
  "example_fraction_read f = Inr (''# styletest: ignore E'' @ [CHR 0xBD])"

text \<open>The words of a directive line, before the code-shaped ones are selected.\<close>

definition line_tokens :: "string \<Rightarrow> string list" where
  "line_tokens line =
     [strip w. w \<leftarrow> split_on CHR '' '' (replace_char CHR '','' CHR '' '' line), strip w \<noteq> []]"

text \<open>
  A path component that \<open>normpath\<close> keeps as it is: not empty, without a separator, and
  neither \<open>.\<close> nor \<open>..\<close>.
\<close>

definition plain :: "string \<Rightarrow> bool" where
  "plain c = (c \<noteq> [] \<and> CHR ''/'' \<notin> set c \<and> c \<noteq> ''.'' \<and> c \<noteq> ''..'')"

text \<open>An application-data provider that returns \<open>/data/\<close> followed by the name.\<close>

definition example_appdata_dir :: "string \<Rightarrow> filesys \<Rightarrow> (exn + string) \<times> filesys" where
  "example_appdata_dir name fs = (Inr (''/data/'' @ name), fs)"

text \<open>A process that has not asked for the test directory, with one left from an earlier run.\<close>

definition example_dstate :: dstate where
  "example_dstate =
     \<lparr>the_test_dir = None,
      disk = [(''/data'', Dir), (''/data/imageio'', Dir), (''/data/imageio/testdir'', Dir),
              (''/data/imageio/testdir/old.png'', File), (''/data/imageio/testdirs'', File)],
      atexit_hooks = []\<rparr>"

text \<open>A style checker that finds nothing and exits with 0.\<close>

definition example_passing_tool :: tool where
  "example_passing_tool argv dir = \<lparr>run_writes = [], run_outcome = Some (SystemExit (IntCode 0))\<rparr>"

text \<open>A process on a machine where nothing of the application exists yet.\<close>

definition example_fresh_dstate :: dstate where
  "example_fresh_dstate = \<lparr>the_test_dir = None, disk = [(''/data'', Dir)], atexit_hooks = []\<rparr>"

text \<open>The same process later, after a test has written a file into the test directory.\<close>

definition example_used_dstate :: dstate where
  "example_used_dstate =
     \<lparr>the_test_dir = Some ''/data/imageio/testdir'',
      disk = [(''/data/imageio/testdir/out.png'', File), (''/data/imageio/testdir'', Dir),
              (''/data'', Dir), (''/data/imageio'', Dir), (''/data/imageio/testdirs'', File)],
      atexit_hooks = [RmtreeTestDir]\<rparr>"

section \<open>Properties of the directive scan\<close>

lemma scan_lines_foldl:
  "scan_lines i ls st = foldl (\<lambda>st l. scan_line l st) st (take (21 - i) ls)"
proof (induction ls arbitrary: i st)
  case Nil
  then show ?case by simp
next
  case (Cons l ls)
  show ?case
  proof (cases "i > 20")
    case True
    then show ?thesis by simp
  next
    case False
    then have "21 - i = Suc (21 - Suc i)" by arith
    with False Cons show ?thesis by simp
  qed
qed

lemma foldl_scan_line:
  "foldl (\<lambda>st l. scan_line l st) st ls =
     (fst st \<or> list_ex is_skip_line ls,
      snd st @ concat (map ignore_words (filter is_ignore_line ls)))"
  by (induction ls arbitrary: st) (auto simp: scan_line_def is_skip_line_def is_ignore_line_def)

text \<open>
  What the scan computes: the lines with index 0 to 20 decide, and nothing after them.
\<close>

lemma get_style_test_options_eq:
  "get_style_test_options text =
     (list_ex is_skip_line (take 21 (splitlines text)),
      concat (map ignore_words (filter is_ignore_line (take 21 (splitlines text)))))"
  by (simp add: get_style_test_options_def scan_lines_foldl foldl_scan_line)

text \<open>
  C1. Directives are said to be honoured on the first 20 lines only. The loop leaves at
  \<open>i > 20\<close> with \<open>i\<close> counted from 0, so the line with index 20, the 21st, is still
  scanned: a file of 20 empty lines followed by a skip directive is skipped, while the
  20 empty lines alone are not.
\<close>

theorem directive_on_line_21_honoured:
  "length (splitlines (replicate 20 (CHR 0x0A) @ ''# styletest: skip'')) = 21 \<and>
   splitlines (replicate 20 (CHR 0x0A) @ ''# styletest: skip'') ! 20 = ''# styletest: skip'' \<and>
   get_style_test_options (replicate 20 (CHR 0x0A) @ ''# styletest: skip'') = (True, []) \<and>
   get_style_test_options (replicate 20 (CHR 0x0A)) = (False, [])"
  by code_simp

text \<open>
  C10. Skip comes before ignore on a scanned line. On the loop body: a line that starts
  with the marker and contains \<open>skip\<close> sets the skip flag and leaves the ignore list as
  it was, whatever else the line contains, and the ignore list changes only on a line
  that starts with the marker, does not contain \<open>skip\<close> and contains \<open>ignore\<close>. On the
  result of \<open>_get_style_test_options\<close>: the file is marked for skipping exactly when one
  of its scanned lines starts with the marker and contains \<open>skip\<close>, and its ignore list is
  made of the code-shaped words of the scanned lines that start with the marker, do not
  contain \<open>skip\<close> and contain \<open>ignore\<close>, in their order, and of nothing else.
\<close>

theorem skip_before_ignore_in_options:
  "(startswith line ''# styletest:'' \<and> contains line ''skip'' \<longrightarrow>
      scan_line line (sk, ign) = (True, ign)) \<and>
   (snd (scan_line line (sk, ign)) \<noteq> ign \<longrightarrow>
      startswith line ''# styletest:'' \<and> \<not> contains line ''skip'' \<and>
      contains line ''ignore'' \<and>
      scan_line line (sk, ign) = (sk, ign @ ignore_words line)) \<and>
   fst (get_style_test_options content) =
     list_ex (\<lambda>l. startswith l ''# styletest:'' \<and> contains l ''skip'')
       (take 21 (splitlines content)) \<and>
   snd (get_style_test_options content) =
     concat (map ignore_words
       [l \<leftarrow> take 21 (splitlines content).
          startswith l ''# styletest:'' \<and> \<not> contains l ''skip'' \<and> contains l ''ignore''])"
proof -
  have s: "is_skip_line = (\<lambda>l. startswith l ''# styletest:'' \<and> contains l ''skip'')"
    by (rule ext) (simp add: is_skip_line_def)
  have i: "is_ignore_line =
      (\<lambda>l. startswith l ''# styletest:'' \<and> \<not> contains l ''skip'' \<and> contains l ''ignore'')"
    by (rule ext) (simp add: is_ignore_line_def)
  have b1: "startswith line ''# styletest:'' \<and> contains line ''skip'' \<longrightarrow>
      scan_line line (sk, ign) = (True, ign)"
    by (simp add: scan_line_def)
  have b2: "snd (scan_line line (sk, ign)) \<noteq> ign \<longrightarrow>
      startswith line ''# styletest:'' \<and> \<not> contains line ''skip'' \<and>
      contains line ''ignore'' \<and>
      scan_line line (sk, ign) = (sk, ign @ ignore_words line)"
    by (simp add: scan_line_def)
  have result: "get_style_test_options content =
     (list_ex (\<lambda>l. startswith l ''# styletest:'' \<and> contains l ''skip'')
        (take 21 (splitlines content)),
      concat (map ignore_words
        [l \<leftarrow> take 21 (splitlines content).
           startswith l ''# styletest:'' \<and> \<not> contains l ''skip'' \<and> contains l ''ignore'']))"
    unfolding get_style_test_options_eq s i by (rule refl)
  have r1: "fst (get_style_test_options content) =
     list_ex (\<lambda>l. startswith l ''# styletest:'' \<and> contains l ''skip'')
       (take 21 (splitlines content))"
    unfolding result by (rule fst_conv)
  have r2: "snd (get_style_test_options content) =
     concat (map ignore_words
       [l \<leftarrow> take 21 (splitlines content).
          startswith l ''# styletest:'' \<and> \<not> contains l ''skip'' \<and> contains l ''ignore''])"
    unfolding result by (rule snd_conv)
  show ?thesis
    by (rule conjI, rule b1, rule conjI, rule b2, rule conjI, rule r1, rule r2)
qed

theorem skip_before_ignore_in_options_witness:
  "startswith ''# styletest: skip, ignore E123'' ''# styletest:'' \<and>
   contains ''# styletest: skip, ignore E123'' ''skip'' \<and>
   contains ''# styletest: skip, ignore E123'' ''ignore'' \<and>
   ignore_words ''# styletest: skip, ignore E123'' = [''E123''] \<and>
   scan_line ''# styletest: skip, ignore E123'' (False, []) = (True, []) \<and>
   snd (scan_line ''# styletest: ignore E123'' (False, [])) \<noteq> [] \<and>
   \<not> contains ''# styletest: ignore E123'' ''skip'' \<and>
   scan_line ''# styletest: ignore E123'' (False, []) = (False, [''E123'']) \<and>
   get_style_test_options
     (''# styletest: skip, ignore E123'' @ [CHR 0x0A] @ ''# styletest: ignore W291'' @
      [CHR 0x0A] @ ''x = 1'') = (True, [''W291'']) \<and>
   get_style_test_options (''# styletest: ignore E123,W291'' @ [CHR 0x0A] @ ''x = 1'') =
     (False, [''E123'', ''W291''])"
proof -
  let ?both = "''# styletest: skip, ignore E123'' @ [CHR 0x0A] @ ''# styletest: ignore W291'' @
      [CHR 0x0A] @ ''x = 1''"
  let ?only = "''# styletest: ignore E123,W291'' @ [CHR 0x0A] @ ''x = 1''"
  have h: "startswith ''# styletest: skip, ignore E123'' ''# styletest:'' \<and>
           contains ''# styletest: skip, ignore E123'' ''skip''"
    by code_simp
  have c: "contains ''# styletest: skip, ignore E123'' ''ignore''"
    by code_simp
  have w: "ignore_words ''# styletest: skip, ignore E123'' = [''E123'']"
    by code_simp
  have g: "snd (scan_line ''# styletest: ignore E123'' (False, [])) \<noteq> []"
    by code_simp
  have w2: "ignore_words ''# styletest: ignore E123'' = [''E123'']"
    by code_simp
  have f1: "list_ex (\<lambda>l. startswith l ''# styletest:'' \<and> contains l ''skip'')
       (take 21 (splitlines ?both)) = True"
    by code_simp
  have s1: "concat (map ignore_words
       [l \<leftarrow> take 21 (splitlines ?both).
          startswith l ''# styletest:'' \<and> \<not> contains l ''skip'' \<and> contains l ''ignore'']) =
       [''W291'']"
    by code_simp
  have f2: "list_ex (\<lambda>l. startswith l ''# styletest:'' \<and> contains l ''skip'')
       (take 21 (splitlines ?only)) = False"
    by code_simp
  have s2: "concat (map ignore_words
       [l \<leftarrow> take 21 (splitlines ?only).
          startswith l ''# styletest:'' \<and> \<not> contains l ''skip'' \<and> contains l ''ignore'']) =
       [''E123'', ''W291'']"
    by code_simp
  note t1 = skip_before_ignore_in_options
    [of "''# styletest: skip, ignore E123''" False "[]" ?both]
  note t2 = skip_before_ignore_in_options
    [of "''# styletest: ignore E123''" False "[]" ?only]
  from mp[OF t1[THEN conjunct1] h]
  have a: "scan_line ''# styletest: skip, ignore E123'' (False, []) = (True, [])" .
  from mp[OF t2[THEN conjunct2, THEN conjunct1] g]
  have b: "\<not> contains ''# styletest: ignore E123'' ''skip'' \<and>
      scan_line ''# styletest: ignore E123'' (False, []) =
        (False, [] @ ignore_words ''# styletest: ignore E123'')"
    by (elim conjE, intro conjI)
  from t1[THEN conjunct2, THEN conjunct2, THEN conjunct1, unfolded f1]
    t1[THEN conjunct2, THEN conjunct2, THEN conjunct2, unfolded s1]
  have r1: "get_style_test_options ?both = (True, [''W291''])"
    by (simp add: prod_eq_iff)
  from t2[THEN conjunct2, THEN conjunct2, THEN conjunct1, unfolded f2]
    t2[THEN conjunct2, THEN conjunct2, THEN conjunct2, unfolded s2]
  have r2: "get_style_test_options ?only = (False, [''E123'', ''W291''])"
    by (simp add: prod_eq_iff)
  from h c w g a b w2 r1 r2 show ?thesis
    by simp
qed

lemma seq_Inl [simp]: "seq (Inl e, s) f = (Inl e, s)"
  by (simp add: seq_def)

lemma seq_Inr [simp]: "seq (Inr x, s) f = f x s"
  by (simp add: seq_def)

section \<open>The suite runner keeps the working directory\<close>

text \<open>
  C9. Whatever the test runner does, and whether it returns or raises, the working
  directory after \<open>test_unit\<close> is the one from before the call; when \<open>test_unit\<close> returns
  a value, the test runner returned that exit code, and when the preparation before the
  test runner does not raise, the outcome of \<open>test_unit\<close> is the test runner's outcome.
\<close>

theorem test_unit_restores_cwd:
  "cwd (snd (test_unit root fh pytest_main rep s)) = cwd s \<and>
   (\<forall>code. fst (test_unit root fh pytest_main rep s) = Inr code \<longrightarrow>
      (\<exists>s1 s2. pytest_main (''-v --cov imageio --cov-config .coveragerc '' @
                    ''--cov-report '' @ rep @ '' tests'') s1 = (Inr code, s2))) \<and>
   (\<forall>u s1. enable_faulthandler root fh (clear_imageio (s\<lparr>cwd := root\<rparr>)) = (Inr u, s1) \<longrightarrow>
      fst (test_unit root fh pytest_main rep s) =
      fst (pytest_main (''-v --cov imageio --cov-config .coveragerc '' @
                    ''--cov-report '' @ rep @ '' tests'') s1))"
proof (intro conjI allI impI)
  show "cwd (snd (test_unit root fh pytest_main rep s)) = cwd s"
    by (simp add: test_unit_def Let_def split: prod.splits)
next
  fix code
  assume "fst (test_unit root fh pytest_main rep s) = Inr code"
  then show "\<exists>s1 s2. pytest_main (''-v --cov imageio --cov-config .coveragerc '' @
                    ''--cov-report '' @ rep @ '' tests'') s1 = (Inr code, s2)"
    by (auto simp: test_unit_def Let_def seq_def split: prod.splits sum.splits)
next
  fix u s1
  assume "enable_faulthandler root fh (clear_imageio (s\<lparr>cwd := root\<rparr>)) = (Inr u, s1)"
  then show "fst (test_unit root fh pytest_main rep s) =
      fst (pytest_main (''-v --cov imageio --cov-config .coveragerc '' @
                    ''--cov-report '' @ rep @ '' tests'') s1)"
    by (simp add: test_unit_def Let_def split: prod.splits)
qed

theorem test_unit_restores_cwd_witness:
  "cwd example_state = ''/home'' \<and>
   cwd (snd (test_unit ''/proj'' True example_pytest_main ''term'' example_state)) = ''/home'' \<and>
   fst (test_unit ''/proj'' True example_pytest_main ''term'' example_state) = Inr 3 \<and>
   cwd (snd (test_unit ''/proj'' False
          (\<lambda>args s. (Inl KeyboardInterrupt, s\<lparr>cwd := ''/proj/tests''\<rparr>)) ''term''
          example_state)) = ''/home'' \<and>
   fst (test_unit ''/proj'' False
          (\<lambda>args s. (Inl KeyboardInterrupt, s\<lparr>cwd := ''/proj/tests''\<rparr>)) ''term''
          example_state) = Inl KeyboardInterrupt"
proof -
  have c: "cwd example_state = ''/home''"
    by (simp add: example_state_def)
  have e: "fst (test_unit ''/proj'' True example_pytest_main ''term'' example_state) = Inr 3"
    by (simp add: test_unit_def enable_faulthandler_def clear_imageio_def py_print_def
        example_pytest_main_def example_state_def)
  have r: "fst (test_unit ''/proj'' False
          (\<lambda>args s. (Inl KeyboardInterrupt, s\<lparr>cwd := ''/proj/tests''\<rparr>)) ''term''
          example_state) = Inl KeyboardInterrupt"
    by (simp add: test_unit_def enable_faulthandler_def clear_imageio_def py_print_def
        example_state_def)
  from test_unit_restores_cwd [of "''/proj''" True example_pytest_main "''term''" example_state]
  have 1: "cwd (snd (test_unit ''/proj'' True example_pytest_main ''term'' example_state)) =
      cwd example_state"
    by (rule conjunct1)
  from test_unit_restores_cwd [of "''/proj''" False
      "\<lambda>args s. (Inl KeyboardInterrupt, s\<lparr>cwd := ''/proj/tests''\<rparr>)" "''term''" example_state]
  have 2: "cwd (snd (test_unit ''/proj'' False
          (\<lambda>args s. (Inl KeyboardInterrupt, s\<lparr>cwd := ''/proj/tests''\<rparr>)) ''term''
          example_state)) = cwd example_state"
    by (rule conjunct1)
  from c e r 1 2 show ?thesis
    by simp
qed

section \<open>The patched runner call\<close>

text \<open>
  C8, as amended. When the original call raises, the wrapper lets the same exception
  through, its traceback extended by the wrapper's own frame; nothing is swallowed or
  replaced. When the exception is an instance of \<open>Exception\<close>, its type, its value and the
  traceback after the wrapper's frame are in the three debugging slots; any other
  exception (\<open>KeyboardInterrupt\<close>, \<open>SystemExit\<close>, ...) leaves the slots as the original
  call left them.
\<close>

theorem wrapper_stores_and_reraises:
  assumes "orig item d = (Some (e, tb), d')"
  shows "fst (pytest_runtest_call orig item d) = Some (e, wrapper_frame # tb) \<and>
         (is_Exception e \<longrightarrow>
            snd (pytest_runtest_call orig item d) =
              d'\<lparr>last_type := Some (exn_type e), last_value := Some e, last_traceback := Some tb\<rparr>) \<and>
         (\<not> is_Exception e \<longrightarrow> snd (pytest_runtest_call orig item d) = d')"
  using assms by (simp add: pytest_runtest_call_def)

theorem wrapper_stores_and_reraises_witness:
  "fst (pytest_runtest_call (\<lambda>item d. (Some (ValueError ''bad'', [''test_body'']), d)) ()
          empty_slots) = Some (ValueError ''bad'', [''pytest_runtest_call'', ''test_body'']) \<and>
   snd (pytest_runtest_call (\<lambda>item d. (Some (ValueError ''bad'', [''test_body'']), d)) ()
          empty_slots) =
     \<lparr>last_type = Some ''ValueError'', last_value = Some (ValueError ''bad''),
      last_traceback = Some [''test_body'']\<rparr> \<and>
   fst (pytest_runtest_call (\<lambda>item d. (Some (SystemExit (IntCode 2), [''test_body'']), d)) ()
          empty_slots) = Some (SystemExit (IntCode 2), [''pytest_runtest_call'', ''test_body'']) \<and>
   snd (pytest_runtest_call (\<lambda>item d. (Some (SystemExit (IntCode 2), [''test_body'']), d)) ()
          empty_slots) = empty_slots"
  using wrapper_stores_and_reraises
    [of "\<lambda>item d. (Some (ValueError ''bad'', [''test_body'']), d)" "()" empty_slots
        "ValueError ''bad''" "[''test_body'']" empty_slots]
    wrapper_stores_and_reraises
    [of "\<lambda>item d. (Some (SystemExit (IntCode 2), [''test_body'']), d)" "()" empty_slots
        "SystemExit (IntCode 2)" "[''test_body'']" empty_slots]
  by (simp add: wrapper_frame_def empty_slots_def)

lemma wrapper_keeps_normal_return:
  "orig item d = (None, d') \<Longrightarrow> pytest_runtest_call orig item d = (None, d')"
  by (simp add: pytest_runtest_call_def)

text \<open>
  The claim as it was stated fails for an exception that is not an instance of
  \<open>Exception\<close>: a \<open>KeyboardInterrupt\<close> of the test passes through the wrapper and the
  three slots stay unset.
\<close>

theorem wrapper_keyboard_interrupt_not_stored: 
  "pytest_runtest_call (\<lambda>item d. (Some (KeyboardInterrupt, [''test_body'']), d)) () empty_slots
     = (Some (KeyboardInterrupt, [''pytest_runtest_call'', ''test_body'']), empty_slots)"
  by (simp add: pytest_runtest_call_def wrapper_frame_def)

section \<open>The per-file style check\<close>

lemma same_but_output_refl [simp]: "same_but_output s s"
  by (simp add: same_but_output_def)

lemma same_but_output_trans:
  "same_but_output s s' \<Longrightarrow> same_but_output s' s'' \<Longrightarrow> same_but_output s s''"
  by (simp add: same_but_output_def)

lemma flush_out_same: "flush_out t s = (r, s') \<Longrightarrow> same_but_output s s'"
  by (induction t arbitrary: s s' r) (auto simp: same_but_output_def)

lemma seq_same:
  assumes "seq m f = (r, s'')"
    and "\<And>r' s'. m = (r', s') \<Longrightarrow> same_but_output s s'"
    and "\<And>x s' r'' t. f x s' = (r'', t) \<Longrightarrow> same_but_output s' t"
  shows "same_but_output s s''"
proof (cases m)
  case (Pair a s1)
  with assms(2) have 1: "same_but_output s s1" by simp
  show ?thesis
  proof (cases a)
    case (Inl e)
    with Pair assms(1) have "s'' = s1" by simp
    with 1 show ?thesis by simp
  next
    case (Inr x)
    with Pair assms(1) have "f x s1 = (r, s'')" by simp
    from assms(3)[OF this] 1 show ?thesis by (rule same_but_output_trans[rotated])
  qed
qed

lemma write_out_same: "write_out root t msg s = (r, s') \<Longrightarrow> same_but_output s s'"
proof (induction t arbitrary: msg s s' r)
  case Console
  then show ?case by (auto simp: same_but_output_def)
next
  case (FileForTesting t)
  have step: "\<And>m. seq (write_out root t m s) (\<lambda>_. flush_out t) = (r, s') \<Longrightarrow> same_but_output s s'"
    by (erule seq_same) (auto intro: FileForTesting.IH flush_out_same)
  from FileForTesting.prems show ?case
    by (auto split: if_splits sum.splits intro: step)
qed

lemma py_print_same: "py_print root msg s = (r, s') \<Longrightarrow> same_but_output s s'"
  unfolding py_print_def
  by (erule seq_same) (auto intro: write_out_same)

lemma write_all_same: "write_all root ms s = (r, s') \<Longrightarrow> same_but_output s s'"
proof (induction ms arbitrary: s s' r)
  case Nil
  then show ?case by simp
next
  case (Cons m ms)
  from Cons.prems show ?case
    by simp (erule seq_same, auto intro: write_out_same Cons.IH)
qed

lemma run_main_same: "run_main root main s = (r, s') \<Longrightarrow> same_but_output s s'"
  unfolding run_main_def Let_def
  by (erule seq_same) (auto intro: write_all_same split: option.splits)


lemma test_style_file_effect:
  assumes "test_style_file root tool f ignore s = (r, s')"
  shows "cwd s' = cwd s \<and> sys_argv s' = sys_argv s \<and> sys_stdout s' = sys_stdout s \<and>
         sys_modules s' = sys_modules s \<and>
         heap s' = (heap s)(sys_argv s :=
            take 1 (heap s (sys_argv s)) @ [f, ''--ignore='' @ ignore_string ignore]) \<and>
         tool_log s' = tool_log s @
            (case tool of None \<Rightarrow> [] | Some main \<Rightarrow> [call_of root f (ignore_string ignore) s])"
proof (cases tool)
  case None
  with assms show ?thesis
    by (auto simp: test_style_file_def Let_def ignore_string_def)
next
  case (Some main)
  define s3 where "s3 = s\<lparr>cwd := root,
       heap := (heap s)(sys_argv s :=
            take 1 (heap s (sys_argv s)) @ [f, ''--ignore='' @ ignore_string ignore]),
       tool_log := tool_log s @ [call_of root f (ignore_string ignore) s]\<rparr>"
  obtain r4 s4 where rm: "run_main root main s3 = (r4, s4)"
    by (cases "run_main root main s3")
  from run_main_same[OF rm] have same: "same_but_output s3 s4" .
  from same have argv: "sys_argv s4 = sys_argv s"
    by (simp add: same_but_output_def s3_def)
  have s': "s' = s4\<lparr>cwd := cwd s\<rparr>"
    using assms Some rm argv
    by (auto simp: test_style_file_def Let_def ignore_string_def s3_def call_of_def
        split: sum.splits exn.splits)
  from same show ?thesis
    by (simp add: s' same_but_output_def s3_def Some)
qed

lemma seq_Inl_cases:
  assumes "seq m f = (Inl e, s'')"
  obtains s' where "m = (Inl e, s')" | x s' where "m = (Inr x, s')" "f x s' = (Inl e, s'')"
  using assms by (cases m; cases "fst m") (auto simp: seq_def)

lemma flush_out_ok: "fst (flush_out t s) = Inr ()"
  by (induction t arbitrary: s) auto

lemma write_out_raises: "write_out root t msg s = (Inl e, s') \<Longrightarrow> \<exists>m. e = ValueError m"
proof (induction t arbitrary: msg s s' e)
  case Console
  then show ?case by simp
next
  case (FileForTesting t)
  have step: "\<exists>m. e = ValueError m"
    if "seq (write_out root t m' s) (\<lambda>_. flush_out t) = (Inl e, s')" for m'
    using that
  proof (cases rule: seq_Inl_cases)
    case (1 s1)
    then show ?thesis by (rule FileForTesting.IH)
  next
    case (2 x s1)
    with flush_out_ok[of t s1] show ?thesis by simp
  qed
  from FileForTesting.prems show ?case
    by (auto split: if_splits sum.splits simp: relpath_def Let_def intro: step)
qed

lemma write_all_raises: "write_all root ms s = (Inl e, s') \<Longrightarrow> \<exists>m. e = ValueError m"
proof (induction ms arbitrary: s s' e)
  case Nil
  then show ?case by simp
next
  case (Cons m ms)
  from Cons.prems have "seq (write_out root (sys_stdout s) m s) (\<lambda>_ s'. write_all root ms s') = (Inl e, s')"
    by simp
  then show ?case
  proof (cases rule: seq_Inl_cases)
    case (1 s1)
    then show ?thesis by (rule write_out_raises)
  next
    case (2 x s1)
    then show ?thesis by (auto dest: Cons.IH)
  qed
qed

lemma test_style_file_result:
  assumes "test_style_file root (Some main) f ignore s = (Inr b, s')"
  shows "(b = Some True) = reports_failure main (call_of root f (ignore_string ignore) s)"
proof -
  define s3 where "s3 = s\<lparr>cwd := root,
       heap := (heap s)(sys_argv s :=
            take 1 (heap s (sys_argv s)) @ [f, ''--ignore='' @ ignore_string ignore]),
       tool_log := tool_log s @ [call_of root f (ignore_string ignore) s]\<rparr>"
  define run where "run = main (call_argv (call_of root f (ignore_string ignore) s)) root"
  obtain rw sw where w: "write_all root (run_writes run) s3 = (rw, sw)"
    by (cases "write_all root (run_writes run) s3")
  have rm: "run_main root main s3 =
      (case rw of Inl e \<Rightarrow> (Inl e, sw)
       | Inr u \<Rightarrow> (case run_outcome run of None \<Rightarrow> (Inr (), sw) | Some e \<Rightarrow> (Inl e, sw)))"
    using w by (simp add: run_main_def Let_def s3_def run_def call_of_def seq_def split: sum.splits)
  have ts: "test_style_file root (Some main) f ignore s =
      (case run_main root main s3 of
         (Inr u, t) \<Rightarrow> (Inr None, t\<lparr>cwd := cwd s, heap := (heap t)(sys_argv t := heap t (sys_argv s))\<rparr>)
       | (Inl e, t) \<Rightarrow> (case e of SystemExit code \<Rightarrow> (Inr (Some (\<not> (code = NoCode \<or> code = IntCode 0))), t\<lparr>cwd := cwd s, heap := (heap t)(sys_argv t := heap t (sys_argv s))\<rparr>)
           | _ \<Rightarrow> (Inl e, t\<lparr>cwd := cwd s, heap := (heap t)(sys_argv t := heap t (sys_argv s))\<rparr>)))"
    by (simp add: test_style_file_def Let_def ignore_string_def s3_def call_of_def
        split: sum.splits exn.splits prod.splits)
  show ?thesis
  proof (cases rw)
    case (Inl e)
    with w write_all_raises obtain m where "e = ValueError m" by blast
    with Inl assms show ?thesis by (simp add: ts rm)
  next
    case (Inr u)
    with assms show ?thesis
      by (auto simp: ts rm reports_failure_def run_def call_of_def split: option.splits exn.splits)
  qed
qed

text \<open>
  C2. The argument list is said to be saved before the call and restored after it.
  \<open>orig_argv = sys.argv\<close> saves a second reference to the same list object, which the
  two updates then change in place, so the closing \<open>sys.argv[:] = orig_argv\<close> copies the
  changed list onto itself: a process started as \<open>prog -v\<close> has the arguments of the
  style checker after the call.
\<close>

theorem test_style_file_argv_not_restored:
  "heap example_state (sys_argv example_state) = [''prog'', ''-v''] \<and>
   fst (test_style_file ''/proj'' (Some example_tool) ''/proj/./a.py'' (IgnoreList [''E226''])
          example_state) = Inr (Some True) \<and>
   heap (snd (test_style_file ''/proj'' (Some example_tool) ''/proj/./a.py''
                (IgnoreList [''E226'']) example_state))
        (sys_argv (snd (test_style_file ''/proj'' (Some example_tool) ''/proj/./a.py''
                (IgnoreList [''E226'']) example_state))) =
     [''prog'', ''/proj/./a.py'', ''--ignore=E226'']"
  by (simp add: test_style_file_def run_main_def example_tool_def example_state_def
      relpath_def Let_def)

section \<open>The walk of the style checker\<close>

lemma checked_call_call_of:
  assumes "read_text f = Inr text" and "\<not> fst (get_style_test_options text)"
  shows "checked_call root read_text
           (call_of root f (str_join '','' (style_ignores @ snd (get_style_test_options text))) s)"
  using assms by (simp add: checked_call_def call_of_def)

lemma walk_effect_compose:
  assumes "walk_effect root main read_text fc s (Inr fc1) s1 new1 files1"
    and "walk_effect root main read_text fc1 s1 r s' new2 files2"
  shows "walk_effect root main read_text fc s r s' (new1 @ new2) (files1 @ files2)"
  using assms unfolding walk_effect_def
  by (cases r) auto

lemma walk_effect_raised:
  assumes "walk_effect root main read_text fc s (Inl e) s' new files1"
  shows "walk_effect root main read_text fc s (Inl e) s' new files2"
  using assms unfolding walk_effect_def by simp

lemma style_files_effect:
  "style_files root (Some main) read_text d fnames fc s = (r, s') \<Longrightarrow>
   \<exists>new. walk_effect root main read_text fc s r s' new (files_of_dir root read_text d fnames)"
proof (induction fnames arbitrary: fc s)
  case Nil
  then show ?case
    by (auto simp: walk_effect_def files_of_dir_def intro: exI[of _ "[]"])
next
  case (Cons fname rest)
  let ?f = "path_join root [d, fname]"
  show ?case
  proof (cases "endswith fname ''.py''")
    case False
    with Cons.prems have "style_files root (Some main) read_text d rest fc s = (r, s')"
      by simp
    from Cons.IH[OF this] False show ?thesis
      by (simp add: files_of_dir_def)
  next
    case py: True
    show ?thesis
    proof (cases "read_text ?f")
      case (Inl e)
      with py Cons.prems have "r = Inl e" "s' = s" by (simp_all add: Let_def)
      then show ?thesis
        by (auto simp: walk_effect_def intro: exI[of _ "[]"])
    next
      case (Inr content)
      show ?thesis
      proof (cases "fst (get_style_test_options content)")
        case True
        with py Inr Cons.prems
        have "style_files root (Some main) read_text d rest fc s = (r, s')"
          by (simp add: Let_def case_prod_beta)
        from Cons.IH[OF this] py Inr True show ?thesis
          by (simp add: files_of_dir_def)
      next
        case noskip: False
        let ?ign = "IgnoreList (style_ignores @ snd (get_style_test_options content))"
        let ?c = "call_of root ?f (ignore_string ?ign) s"
        obtain r1 s1 where t: "test_style_file root (Some main) ?f ?ign s = (r1, s1)"
          by (cases "test_style_file root (Some main) ?f ?ign s")
        from test_style_file_effect[OF t]
        have e1: "cwd s1 = cwd s" "sys_argv s1 = sys_argv s" "sys_stdout s1 = sys_stdout s"
          "tool_log s1 = tool_log s @ [?c]"
          by simp_all
        have cc: "checked_call root read_text ?c"
          using checked_call_call_of[of read_text ?f content root s] Inr noskip
          by (simp add: ignore_string_def)
        have cf: "call_file ?c = ?f" by (simp add: call_of_def)
        have unfold: "style_files root (Some main) read_text d (fname # rest) fc s =
          seq (r1, s1) (\<lambda>thisfail s1.
             seq (if thisfail = Some True then py_print root ''----'' s1 else (Inr (), s1))
               (\<lambda>_ s2. seq (flush_out (sys_stdout s2) s2)
                  (\<lambda>_ s3. style_files root (Some main) read_text d rest
                            (fst fc \<or> thisfail = Some True, Suc (snd fc)) s3)))"
          using py Inr noskip t by (simp add: Let_def case_prod_beta)
        show ?thesis
        proof (cases r1)
          case (Inl e)
          with unfold Cons.prems have "r = Inl e" "s' = s1" by simp_all
          with e1 cc show ?thesis
            by (auto simp: walk_effect_def intro: exI[of _ "[?c]"])
        next
          case (Inr b)
          from test_style_file_result[OF t[unfolded Inr]]
          have b: "(b = Some True) = reports_failure main ?c" .
          obtain r2 s2 where p: "(if b = Some True then py_print root ''----'' s1 else (Inr (), s1)) = (r2, s2)"
            by (cases "if b = Some True then py_print root ''----'' s1 else (Inr (), s1)")
          have same2: "same_but_output s1 s2"
            using p by (auto split: if_splits intro: py_print_same)
          obtain r3 s3 where fl: "flush_out (sys_stdout s2) s2 = (r3, s3)"
            by (cases "flush_out (sys_stdout s2) s2")
          have same3: "same_but_output s2 s3"
            using fl by (rule flush_out_same)
          have r3: "r3 = Inr ()"
            using fl flush_out_ok[of "sys_stdout s2" s2] by simp
          from same2 same3 e1
          have e3: "cwd s3 = cwd s" "sys_argv s3 = sys_argv s" "sys_stdout s3 = sys_stdout s"
            "tool_log s3 = tool_log s @ [?c]"
            by (simp_all add: same_but_output_def)
          show ?thesis
          proof (cases r2)
            case (Inl e)
            with unfold Cons.prems Inr p have "r = Inl e" "s' = s2" by simp_all
            with e1 same2 cc show ?thesis
              by (auto simp: walk_effect_def same_but_output_def intro: exI[of _ "[?c]"])
          next
            case r2: (Inr u)
            with unfold Cons.prems Inr p fl r3
            have "style_files root (Some main) read_text d rest
                    (fst fc \<or> b = Some True, Suc (snd fc)) s3 = (r, s')"
              by simp
            from Cons.IH[OF this] obtain new where
              w: "walk_effect root main read_text (fst fc \<or> b = Some True, Suc (snd fc)) s3 r s'
                    new (files_of_dir root read_text d rest)"
              by blast
            have fd: "files_of_dir root read_text d (fname # rest) =
                        ?f # files_of_dir root read_text d rest"
              using py \<open>read_text ?f = Inr content\<close> noskip by (simp add: files_of_dir_def)
            have "walk_effect root main read_text fc s r s' (?c # new)
                    (files_of_dir root read_text d (fname # rest))"
              using w e3 cc b cf unfolding walk_effect_def fd
              by (auto split: sum.splits)
            then show ?thesis by blast
          qed
        qed
      qed
    qed
  qed
qed

lemma style_walk_effect:
  "style_walk root (Some main) read_text walk fc s = (r, s') \<Longrightarrow>
   \<exists>new. walk_effect root main read_text fc s r s' new
           (checked_files root (cwd s) read_text walk)"
proof (induction walk arbitrary: fc s)
  case Nil
  then show ?case
    by (auto simp: walk_effect_def checked_files_def intro: exI[of _ "[]"])
next
  case (Cons entry rest)
  obtain dir dirnames filenames where entry: "entry = (dir, dirnames, filenames)"
    by (cases entry)
  show ?case
  proof (cases "relpath (cwd s) dir root")
    case (Inl e)
    with Cons.prems entry have "r = Inl e" "s' = s" by simp_all
    then show ?thesis
      by (auto simp: walk_effect_def intro: exI[of _ "[]"])
  next
    case (Inr d)
    show ?thesis
    proof (cases "set exclude_dirs \<inter> set (split_on CHR ''/'' d) \<noteq> {}")
      case True
      with Cons.prems entry Inr
      have "style_walk root (Some main) read_text rest fc s = (r, s')"
        by simp
      from Cons.IH[OF this] entry Inr True show ?thesis
        by (simp add: checked_files_def)
    next
      case False
      obtain r1 s1 where f: "style_files root (Some main) read_text d filenames fc s = (r1, s1)"
        by (cases "style_files root (Some main) read_text d filenames fc s")
      from style_files_effect[OF f] obtain new1 where
        w1: "walk_effect root main read_text fc s r1 s1 new1
               (files_of_dir root read_text d filenames)"
        by blast
      have cf: "checked_files root (cwd s) read_text (entry # rest) =
                  files_of_dir root read_text d filenames @
                  checked_files root (cwd s) read_text rest"
        using entry Inr False by (simp add: checked_files_def)
      show ?thesis
      proof (cases r1)
        case (Inl e)
        with Cons.prems entry \<open>relpath (cwd s) dir root = Inr d\<close> False f
        have "r = Inl e" "s' = s1" by simp_all
        with w1 Inl show ?thesis
          by (auto intro: walk_effect_raised)
      next
        case r1: (Inr fc1)
        with Cons.prems entry \<open>relpath (cwd s) dir root = Inr d\<close> False f
        have "style_walk root (Some main) read_text rest fc1 s1 = (r, s')"
          by simp
        from Cons.IH[OF this] obtain new2 where
          w2: "walk_effect root main read_text fc1 s1 r s' new2
                 (checked_files root (cwd s1) read_text rest)"
          by blast
        from w1 have "cwd s1 = cwd s" by (simp add: walk_effect_def)
        with walk_effect_compose[OF w1[unfolded r1] w2] cf show ?thesis
          by auto
      qed
    qed
  qed
qed

subsection \<open>Runs that end without an exception\<close>

lemma startswith_nonempty: "startswith msg root \<Longrightarrow> root \<noteq> [] \<Longrightarrow> msg \<noteq> []"
  by (cases root; cases msg) auto

lemma write_out_ok:
  assumes "root \<noteq> []"
  shows "\<exists>s'. write_out root t msg s = (Inr (), s')"
proof (induction t arbitrary: msg s)
  case Console
  show ?case by simp
next
  case (FileForTesting t)
  have step: "\<exists>s'. seq (write_out root t m s) (\<lambda>_. flush_out t) = (Inr (), s')" for m
  proof -
    from FileForTesting obtain s1 where "write_out root t m s = (Inr (), s1)" by blast
    moreover obtain s2 where "flush_out t s1 = (Inr (), s2)"
      using flush_out_ok[of t s1] by (cases "flush_out t s1") auto
    ultimately show ?thesis by simp
  qed
  show ?case
  proof (cases "startswith msg root")
    case True
    from startswith_nonempty[OF True assms] have "msg \<noteq> []" .
    then obtain m where "relpath (cwd s) msg root = Inr m"
      by (auto simp: relpath_def Let_def)
    with True step[of m] show ?thesis by simp
  next
    case False
    with step[of msg] show ?thesis by simp
  qed
qed

lemma py_print_ok:
  assumes "root \<noteq> []"
  shows "\<exists>s'. py_print root msg s = (Inr (), s')"
proof -
  from write_out_ok[OF assms] obtain s1 where "write_out root (sys_stdout s) msg s = (Inr (), s1)"
    by blast
  moreover from write_out_ok[OF assms] obtain s2 where
    "write_out root (sys_stdout s1) [CHR 0x0A] s1 = (Inr (), s2)"
    by blast
  ultimately show ?thesis by (simp add: py_print_def)
qed

lemma write_all_ok:
  assumes "root \<noteq> []"
  shows "\<exists>s'. write_all root ms s = (Inr (), s')"
proof (induction ms arbitrary: s)
  case Nil
  show ?case by simp
next
  case (Cons m ms)
  from write_out_ok[OF assms] obtain s1 where "write_out root (sys_stdout s) m s = (Inr (), s1)"
    by blast
  with Cons[of s1] show ?case by simp
qed

lemma test_style_file_ok:
  assumes "root \<noteq> []" and "ends_by_exit main"
  shows "\<exists>b s'. test_style_file root (Some main) f ignore s = (Inr b, s')"
proof -
  define s3 where "s3 = s\<lparr>cwd := root,
       heap := (heap s)(sys_argv s :=
            take 1 (heap s (sys_argv s)) @ [f, ''--ignore='' @ ignore_string ignore]),
       tool_log := tool_log s @ [call_of root f (ignore_string ignore) s]\<rparr>"
  define run where "run = main (call_argv (call_of root f (ignore_string ignore) s)) root"
  from write_all_ok[OF assms(1)] obtain sw where
    w: "write_all root (run_writes run) s3 = (Inr (), sw)"
    by blast
  from assms(2) have e: "case run_outcome run of None \<Rightarrow> True
      | Some e \<Rightarrow> (case e of SystemExit code \<Rightarrow> True | _ \<Rightarrow> False)"
    unfolding ends_by_exit_def run_def by blast
  have rm: "run_main root main s3 =
      (case run_outcome run of None \<Rightarrow> (Inr (), sw) | Some e \<Rightarrow> (Inl e, sw))"
    using w by (simp add: run_main_def Let_def s3_def run_def call_of_def)
  show ?thesis
    using e rm
    by (auto simp: test_style_file_def Let_def ignore_string_def s3_def call_of_def
        split: option.splits exn.splits)
qed

lemma style_files_ok:
  assumes "root \<noteq> []" and "ends_by_exit main" and "\<forall>f. \<exists>content. read_text f = Inr content"
  shows "\<exists>fc' s'. style_files root (Some main) read_text d fnames fc s = (Inr fc', s')"
proof (induction fnames arbitrary: fc s)
  case Nil
  show ?case by simp
next
  case (Cons fname rest)
  let ?f = "path_join root [d, fname]"
  from assms(3) obtain content where rd: "read_text ?f = Inr content" by blast
  show ?case
  proof (cases "endswith fname ''.py'' \<and> \<not> fst (get_style_test_options content)")
    case False
    with rd Cons[of fc s] show ?thesis
      by (auto simp: Let_def case_prod_beta)
  next
    case True
    let ?ign = "IgnoreList (style_ignores @ snd (get_style_test_options content))"
    from test_style_file_ok[OF assms(1,2)] obtain b s1 where
      t: "test_style_file root (Some main) ?f ?ign s = (Inr b, s1)"
      by blast
    have "\<exists>s2. (if b = Some True then py_print root ''----'' s1 else (Inr (), s1)) = (Inr (), s2)"
      using py_print_ok[OF assms(1), of "''----''" s1] by simp
    then obtain s2 where
      p: "(if b = Some True then py_print root ''----'' s1 else (Inr (), s1)) = (Inr (), s2)"
      by blast
    obtain s3 where fl: "flush_out (sys_stdout s2) s2 = (Inr (), s3)"
      using flush_out_ok[of "sys_stdout s2" s2] by (cases "flush_out (sys_stdout s2) s2") auto
    from Cons[of "(fst fc \<or> b = Some True, Suc (snd fc))" s3] True rd t p fl
    show ?thesis
      by (simp add: Let_def case_prod_beta)
  qed
qed

lemma style_walk_ok:
  assumes "root \<noteq> []" and "ends_by_exit main" and "\<forall>f. \<exists>content. read_text f = Inr content"
    and "\<forall>entry \<in> set walk. fst entry \<noteq> []"
  shows "\<exists>fc' s'. style_walk root (Some main) read_text walk fc s = (Inr fc', s')"
  using assms(4)
proof (induction walk arbitrary: fc s)
  case Nil
  show ?case by simp
next
  case (Cons entry rest)
  obtain dir dirnames filenames where entry: "entry = (dir, dirnames, filenames)"
    by (cases entry)
  with Cons.prems have "dir \<noteq> []" by simp
  then obtain d where rp: "relpath (cwd s) dir root = Inr d"
    by (auto simp: relpath_def Let_def)
  from Cons.prems have rest: "\<forall>entry \<in> set rest. fst entry \<noteq> []" by simp
  show ?case
  proof (cases "set exclude_dirs \<inter> set (split_on CHR ''/'' d) \<noteq> {}")
    case True
    with Cons.IH[OF rest, of fc s] entry rp show ?thesis by simp
  next
    case False
    from style_files_ok[OF assms(1-3)] obtain fc1 s1 where
      "style_files root (Some main) read_text d filenames fc s = (Inr fc1, s1)"
      by blast
    with Cons.IH[OF rest, of fc1 s1] entry rp False show ?thesis by simp
  qed
qed

section \<open>The style-check run\<close>

lemma test_style_calls:
  assumes "test_style root tool read_text walk s = (r, s')"
  shows "\<exists>new. tool_log s' = tool_log s @ new \<and> list_all (checked_call root read_text) new"
proof (cases tool)
  case None
  with assms have "py_print root ''Skipping flake8 test, flake8 not installed'' s = (r, s')"
    by (simp add: test_style_def)
  from py_print_same[OF this] show ?thesis
    by (simp add: same_but_output_def)
next
  case (Some main)
  obtain r1 s1 where p: "py_print root (''Running flake8 on '' @ root) s = (r1, s1)"
    by (cases "py_print root (''Running flake8 on '' @ root) s")
  from py_print_same[OF p] have l1: "tool_log s1 = tool_log s"
    by (simp add: same_but_output_def)
  show ?thesis
  proof (cases r1)
    case (Inl e)
    with assms Some p have "s' = s1" by (simp add: test_style_def)
    with l1 show ?thesis by simp
  next
    case (Inr u)
    let ?s2 = "s1\<lparr>sys_stdout := FileForTesting (sys_stdout s1)\<rparr>"
    obtain r3 s3 where w: "style_walk root (Some main) read_text walk (False, 0) ?s2 = (r3, s3)"
      by (cases "style_walk root (Some main) read_text walk (False, 0) ?s2")
    from style_walk_effect[OF w] obtain new where
      e: "walk_effect root main read_text (False, 0) ?s2 r3 s3 new
            (checked_files root (cwd ?s2) read_text walk)"
      by blast
    then have l3: "tool_log s3 = tool_log s @ new" "list_all (checked_call root read_text) new"
      using l1 by (simp_all add: walk_effect_def)
    have "tool_log s' = tool_log s3"
    proof (cases r3)
      case (Inl e)
      with assms Some p Inr w show ?thesis by (simp add: test_style_def)
    next
      case fc: (Inr fc)
      obtain r4 s4 where rv: "revert s3 = (r4, s4)" by (cases "revert s3")
      then have l4: "tool_log s4 = tool_log s3"
        by (auto simp: revert_def split: out_target.splits)
      show ?thesis
      proof (cases r4)
        case (Inl e)
        with assms Some p Inr w fc rv l4 show ?thesis by (simp add: test_style_def)
      next
        case r4: (Inr v)
        with assms Some p Inr w fc rv l4 show ?thesis
          by (auto simp: test_style_def same_but_output_def split: if_splits dest!: py_print_same)
      qed
    qed
    with l3 show ?thesis by simp
  qed
qed

text \<open>
  C5. A file whose scanned lines (those with index 0 to 20) contain a skip directive is
  left out, whatever its other lines say: in every walk, the tool is not invoked on it,
  and the tally of a walk that ends counts exactly the invocations made; so it is in
  every run of \<open>test_style\<close>.
\<close>

theorem skipped_file_not_checked:
  assumes "read_text f = Inr content"
    and "list_ex is_skip_line (take 21 (splitlines content))"
  shows "(style_walk root (Some main) read_text walk fc s = (r, s') \<longrightarrow>
            (\<exists>new. tool_log s' = tool_log s @ new \<and> f \<notin> set (map call_file new) \<and>
               (\<forall>fc'. r = Inr fc' \<longrightarrow> snd fc' = snd fc + length new))) \<and>
         (test_style root tool read_text walk s = (r', s'') \<longrightarrow>
            (\<exists>new. tool_log s'' = tool_log s @ new \<and> f \<notin> set (map call_file new)))"
proof -
  have skip: "fst (get_style_test_options content)"
    using assms(2) by (simp add: get_style_test_options_eq)
  have no: "f \<notin> set (map call_file new)" if "list_all (checked_call root read_text) new" for new
  proof
    assume "f \<in> set (map call_file new)"
    then obtain c where "c \<in> set new" "call_file c = f" by auto
    with that have "checked_call root read_text c" by (simp add: list_all_iff)
    with \<open>call_file c = f\<close> assms(1) skip show False by (simp add: checked_call_def)
  qed
  show ?thesis
  proof (intro conjI impI)
    assume "style_walk root (Some main) read_text walk fc s = (r, s')"
    from style_walk_effect[OF this] obtain new where
      "walk_effect root main read_text fc s r s' new (checked_files root (cwd s) read_text walk)"
      by blast
    then have "tool_log s' = tool_log s @ new" "list_all (checked_call root read_text) new"
      "\<forall>fc'. r = Inr fc' \<longrightarrow> snd fc' = snd fc + length new"
      by (auto simp: walk_effect_def)
    with no show "\<exists>new. tool_log s' = tool_log s @ new \<and> f \<notin> set (map call_file new) \<and>
               (\<forall>fc'. r = Inr fc' \<longrightarrow> snd fc' = snd fc + length new)"
      by blast
  next
    assume "test_style root tool read_text walk s = (r', s'')"
    from test_style_calls[OF this] no
    show "\<exists>new. tool_log s'' = tool_log s @ new \<and> f \<notin> set (map call_file new)"
      by blast
  qed
qed

theorem skipped_file_not_checked_witness:
  "example_read ''/proj/./b.py'' =
     Inr (''# styletest: skip'' @ [CHR 0x0A] @ ''# styletest: ignore E501'') \<and>
   list_ex is_skip_line
     (take 21 (splitlines (''# styletest: skip'' @ [CHR 0x0A] @ ''# styletest: ignore E501''))) \<and>
   map call_file (tool_log (snd (test_style ''/proj'' (Some example_tool) example_read
        example_walk example_state))) = [''/proj/./a.py''] \<and>
   ''/proj/./b.py'' \<notin> set (map call_file (tool_log (snd (test_style ''/proj''
        (Some example_tool) example_read example_walk example_state)))) \<and>
   fst (style_walk ''/proj'' (Some example_tool) example_read example_walk (False, 0)
        example_state) = Inr (True, 1) \<and>
   ''/proj/./b.py'' \<notin> set (map call_file (tool_log (snd (style_walk ''/proj''
        (Some example_tool) example_read example_walk (False, 0) example_state)))) \<and>
   length (tool_log (snd (style_walk ''/proj'' (Some example_tool) example_read example_walk
        (False, 0) example_state))) = 1"
proof -
  let ?content = "''# styletest: skip'' @ [CHR 0x0A] @ ''# styletest: ignore E501''"
  let ?run = "test_style ''/proj'' (Some example_tool) example_read example_walk example_state"
  let ?walk = "style_walk ''/proj'' (Some example_tool) example_read example_walk (False, 0)
        example_state"
  have h1: "example_read ''/proj/./b.py'' = Inr ?content"
    by (simp add: example_read_def)
  have h2: "list_ex is_skip_line (take 21 (splitlines ?content))"
    by code_simp
  have run: "?run = (fst ?run, snd ?run)"
    by simp
  have walk: "?walk = (fst ?walk, snd ?walk)"
    by simp
  have log: "map call_file (tool_log (snd ?run)) = [''/proj/./a.py'']"
    by code_simp
  have tally: "fst ?walk = Inr (True, 1)"
    by code_simp
  have log0: "tool_log example_state = []"
    by (simp add: example_state_def)
  note t = skipped_file_not_checked[where read_text = example_read and f = "''/proj/./b.py''"
      and content = ?content, OF h1 h2]
  from t[THEN conjunct2, rule_format, OF run]
  obtain new where "tool_log (snd ?run) = tool_log example_state @ new"
    "''/proj/./b.py'' \<notin> set (map call_file new)"
    by blast
  with log0 have a: "''/proj/./b.py'' \<notin> set (map call_file (tool_log (snd ?run)))"
    by simp
  from t[THEN conjunct1, rule_format, OF walk]
  obtain new' where n: "tool_log (snd ?walk) = tool_log example_state @ new'"
    "''/proj/./b.py'' \<notin> set (map call_file new')"
    "\<forall>fc'. fst ?walk = Inr fc' \<longrightarrow> snd fc' = snd (False, 0::nat) + length new'"
    by blast
  from n(3) tally have "length new' = 1"
    by simp
  with n(1,2) log0 have b: "''/proj/./b.py'' \<notin> set (map call_file (tool_log (snd ?walk)))"
    "length (tool_log (snd ?walk)) = 1"
    by simp_all
  from h1 h2 log a tally b show ?thesis
    by (intro conjI)
qed

text \<open>
  C3. A run of \<open>test_style\<close> with the tool installed, on a tree whose files can be read
  and with a tool that ends every invocation by returning or by \<open>SystemExit\<close>: the run
  invokes the tool on the expected files, one invocation each, and ends with the
  standard output it started with. When no file was checked it raises the error
  \<open>Arg! flake8 did not check any files\<close>; when an invocation reports a failure it raises
  the error that names the number of files checked; otherwise it returns, and its last
  act is to print the success summary with that number, with the standard output
  already restored.
\<close>

theorem test_style_outcome:
  assumes "root \<noteq> []" and "ends_by_exit main"
    and "\<forall>f. \<exists>content. read_text f = Inr content"
    and "\<forall>entry \<in> set walk. fst entry \<noteq> []"
    and run: "test_style root (Some main) read_text walk s = (r, s')"
  shows "\<exists>new. tool_log s' = tool_log s @ new \<and>
           map call_file new = checked_files root (cwd s) read_text walk \<and>
           sys_stdout s' = sys_stdout s \<and>
           (new = [] \<longrightarrow> r = Inl (RuntimeError ''    Arg! flake8 did not check any files'')) \<and>
           (list_ex (reports_failure main) new \<longrightarrow>
              r = Inl (RuntimeError (''    Arg! flake8 failed (checked '' @
                         show_nat (length new) @ '' files)''))) \<and>
           (new \<noteq> [] \<and> \<not> list_ex (reports_failure main) new \<longrightarrow>
              r = Inr () \<and>
              (\<exists>s4. sys_stdout s4 = sys_stdout s \<and>
                 py_print root (''    Hooray! flake8 passed (checked '' @
                         show_nat (length new) @ '' files)'') s4 = (Inr (), s')))"
proof -
  from py_print_ok[OF assms(1)] obtain s1 where
    p: "py_print root (''Running flake8 on '' @ root) s = (Inr (), s1)"
    by blast
  from py_print_same[OF p] have s1: "cwd s1 = cwd s" "sys_stdout s1 = sys_stdout s"
    "tool_log s1 = tool_log s"
    by (simp_all add: same_but_output_def)
  let ?s2 = "s1\<lparr>sys_stdout := FileForTesting (sys_stdout s1)\<rparr>"
  from style_walk_ok[OF assms(1-4)] obtain fc s3 where
    w: "style_walk root (Some main) read_text walk (False, 0) ?s2 = (Inr fc, s3)"
    by blast
  from style_walk_effect[OF w] obtain new where
    "walk_effect root main read_text (False, 0) ?s2 (Inr fc) s3 new
       (checked_files root (cwd ?s2) read_text walk)"
    by blast
  then have e: "tool_log s3 = tool_log s @ new"
    "sys_stdout s3 = FileForTesting (sys_stdout s)"
    "snd fc = length new" "fst fc = list_ex (reports_failure main) new"
    "map call_file new = checked_files root (cwd s) read_text walk"
    using s1 by (simp_all add: walk_effect_def)
  let ?s4 = "s3\<lparr>sys_stdout := sys_stdout s\<rparr>"
  have rv: "revert s3 = (Inr (), ?s4)"
    using e(2) by (simp add: revert_def)
  have ts: "(r, s') =
      (if snd fc = 0 then (Inl (RuntimeError ''    Arg! flake8 did not check any files''), ?s4)
       else if fst fc then
         (Inl (RuntimeError (''    Arg! flake8 failed (checked '' @
                 show_nat (snd fc) @ '' files)'')), ?s4)
       else py_print root (''    Hooray! flake8 passed (checked '' @
                 show_nat (snd fc) @ '' files)'') ?s4)"
    using run p w rv by (simp add: test_style_def)
  show ?thesis
  proof (cases "new = []")
    case True
    with ts e show ?thesis
      by (intro exI[of _ new]) simp
  next
    case nonempty: False
    show ?thesis
    proof (cases "list_ex (reports_failure main) new")
      case True
      with ts e nonempty show ?thesis
        by (intro exI[of _ new]) simp
    next
      case False
      let ?msg = "''    Hooray! flake8 passed (checked '' @ show_nat (length new) @ '' files)''"
      from ts e nonempty False have pr: "py_print root ?msg ?s4 = (r, s')"
        by simp
      from py_print_ok[OF assms(1), of ?msg ?s4] pr have r: "r = Inr ()"
        by auto
      from py_print_same[OF pr] e have "tool_log s' = tool_log s @ new" "sys_stdout s' = sys_stdout s"
        by (simp_all add: same_but_output_def)
      moreover have "\<exists>s4. sys_stdout s4 = sys_stdout s \<and> py_print root ?msg s4 = (Inr (), s')"
        using pr r by (intro exI[of _ ?s4]) simp
      ultimately show ?thesis
        using e(5) r nonempty False by (intro exI[of _ new]) simp
    qed
  qed
qed

theorem test_style_outcome_witness:
  "fst (test_style ''/proj'' (Some example_tool) example_read example_walk example_state) =
     Inl (RuntimeError ''    Arg! flake8 failed (checked 1 files)'') \<and>
   sys_stdout (snd (test_style ''/proj'' (Some example_tool) example_read example_walk
     example_state)) = Console \<and>
   map call_file (tool_log (snd (test_style ''/proj'' (Some example_tool) example_read
     example_walk example_state))) = [''/proj/./a.py''] \<and>
   fst (test_style ''/proj'' (Some example_passing_tool) example_read example_walk
     example_state) = Inr () \<and>
   out_written (snd (test_style ''/proj'' (Some example_passing_tool) example_read example_walk
     example_state)) =
     [''Running flake8 on /proj'', [CHR 0x0A],
      ''    Hooray! flake8 passed (checked 1 files)'', [CHR 0x0A]] \<and>
   sys_stdout (snd (test_style ''/proj'' (Some example_passing_tool) example_read example_walk
     example_state)) = Console \<and>
   fst (test_style ''/proj'' (Some example_tool) example_read [] example_state) =
     Inl (RuntimeError ''    Arg! flake8 did not check any files'') \<and>
   sys_stdout (snd (test_style ''/proj'' (Some example_tool) example_read [] example_state)) =
     Console"
proof -
  let ?fail = "test_style ''/proj'' (Some example_tool) example_read example_walk example_state"
  let ?pass = "test_style ''/proj'' (Some example_passing_tool) example_read example_walk
     example_state"
  let ?none = "test_style ''/proj'' (Some example_tool) example_read [] example_state"
  have h1: "''/proj'' \<noteq> []" by simp
  have h2: "ends_by_exit example_tool"
    by (simp add: ends_by_exit_def example_tool_def)
  have h2': "ends_by_exit example_passing_tool"
    by (simp add: ends_by_exit_def example_passing_tool_def)
  have h3: "\<forall>f. \<exists>content. example_read f = Inr content"
    by (simp add: example_read_def)
  have h4: "\<forall>entry \<in> set example_walk. fst entry \<noteq> []"
    by (simp add: example_walk_def)
  have h4': "\<forall>entry \<in> set ([] :: (string \<times> string list \<times> string list) list). fst entry \<noteq> []"
    by simp
  have out0: "sys_stdout example_state = Console" "tool_log example_state = []"
    by (simp_all add: example_state_def)
  have files: "checked_files ''/proj'' (cwd example_state) example_read example_walk =
      [''/proj/./a.py'']"
    by code_simp
  have r_fail: "fst ?fail = Inl (RuntimeError ''    Arg! flake8 failed (checked 1 files)'')"
    by code_simp
  have r_pass: "fst ?pass = Inr ()"
    by code_simp
  have w_pass: "out_written (snd ?pass) =
     [''Running flake8 on /proj'', [CHR 0x0A],
      ''    Hooray! flake8 passed (checked 1 files)'', [CHR 0x0A]]"
    by code_simp
  have r_none: "fst ?none = Inl (RuntimeError ''    Arg! flake8 did not check any files'')"
    by code_simp
  have run_fail: "?fail = (fst ?fail, snd ?fail)" by simp
  have run_pass: "?pass = (fst ?pass, snd ?pass)" by simp
  have run_none: "?none = (fst ?none, snd ?none)" by simp
  from test_style_outcome[OF h1 h2 h3 h4 run_fail] obtain new where
    "tool_log (snd ?fail) = tool_log example_state @ new"
    "map call_file new = checked_files ''/proj'' (cwd example_state) example_read example_walk"
    "sys_stdout (snd ?fail) = sys_stdout example_state"
    by blast
  with files out0 have a: "sys_stdout (snd ?fail) = Console"
    "map call_file (tool_log (snd ?fail)) = [''/proj/./a.py'']"
    by simp_all
  from test_style_outcome[OF h1 h2' h3 h4 run_pass] obtain new' where
    "sys_stdout (snd ?pass) = sys_stdout example_state"
    by blast
  with out0 have b: "sys_stdout (snd ?pass) = Console"
    by simp
  from test_style_outcome[OF h1 h2 h3 h4' run_none] obtain new'' where
    "sys_stdout (snd ?none) = sys_stdout example_state"
    by blast
  with out0 have c: "sys_stdout (snd ?none) = Console"
    by simp
  from r_fail a r_pass w_pass b r_none c show ?thesis
    by (intro conjI)
qed

lemma last_of_drop:
  assumes "drop n xs = [a, b]"
  shows "last xs = b"
proof -
  from assms have "n < length xs" by (cases "n < length xs") auto
  then have "last (drop n xs) = last xs" by (rule last_drop)
  with assms show ?thesis by simp
qed

lemma code_shaped_iff:
  "code_shaped w =
     (\<exists>c ds. w = c # ds \<and> c \<in> set ''EWFCN'' \<and> ds \<noteq> [] \<and> list_all isnumeric_char ds)"
  by (cases w) (auto simp: code_shaped_def isnumeric_def)

text \<open>
  C7, as amended. For every invocation of the tool in a run of \<open>test_style\<close>, the ignore
  set passed for the file is the fixed list followed by the code-shaped words of that
  file's own scanned ignore-directive lines, and nothing of any other file. A word is
  code-shaped when it is one letter of E, W, F, C, N followed by one or more characters
  that \<open>str.isnumeric\<close> accepts: the decimal digits, and also other numeric characters
  such as superscript digits and fractions.
\<close>

theorem ignore_set_of_checked_file:
  assumes "test_style root tool read_text walk s = (r, s')"
  shows "\<exists>new. tool_log s' = tool_log s @ new \<and>
           (\<forall>c \<in> set new. \<exists>content.
              read_text (call_file c) = Inr content \<and>
              call_ignore c = str_join '',''
                ([''E226'', ''E241'', ''E265'', ''W291'', ''W293''] @
                 concat (map (\<lambda>line. [w \<leftarrow> line_tokens line. code_shaped w])
                   [line \<leftarrow> take 21 (splitlines content). is_ignore_line line])) \<and>
              last (call_argv c) = ''--ignore='' @ call_ignore c \<and>
              (\<forall>w. code_shaped w =
                 (\<exists>c ds. w = c # ds \<and> c \<in> set ''EWFCN'' \<and> ds \<noteq> [] \<and>
                    list_all isnumeric_char ds)))"
proof -
  from test_style_calls[OF assms] obtain new where
    new: "tool_log s' = tool_log s @ new" "list_all (checked_call root read_text) new"
    by blast
  have words: "ignore_words = (\<lambda>line. [w \<leftarrow> line_tokens line. code_shaped w])"
    by (rule ext) (simp add: ignore_words_def line_tokens_def Let_def)
  have "\<exists>content.
          read_text (call_file c) = Inr content \<and>
          call_ignore c = str_join '',''
            ([''E226'', ''E241'', ''E265'', ''W291'', ''W293''] @
             concat (map (\<lambda>line. [w \<leftarrow> line_tokens line. code_shaped w])
               [line \<leftarrow> take 21 (splitlines content). is_ignore_line line])) \<and>
          last (call_argv c) = ''--ignore='' @ call_ignore c \<and>
          (\<forall>w. code_shaped w =
                 (\<exists>c ds. w = c # ds \<and> c \<in> set ''EWFCN'' \<and> ds \<noteq> [] \<and>
                    list_all isnumeric_char ds))"
    if "c \<in> set new" for c
  proof -
    from that new(2) have cc: "checked_call root read_text c"
      by (simp add: list_all_iff)
    then obtain content where rd: "read_text (call_file c) = Inr content"
      by (cases "read_text (call_file c)") (auto simp: checked_call_def)
    from cc rd have
      ign: "call_ignore c = str_join '','' (style_ignores @ snd (get_style_test_options content))"
      and dr: "drop (length (call_argv c) - 2) (call_argv c) =
                 [call_file c, ''--ignore='' @ call_ignore c]"
      by (simp_all add: checked_call_def)
    from dr have "last (call_argv c) = ''--ignore='' @ call_ignore c"
      by (rule last_of_drop)
    with rd ign code_shaped_iff show ?thesis
      by (simp add: get_style_test_options_eq style_ignores_def words)
  qed
  with new(1) show ?thesis by blast
qed

theorem ignore_set_of_checked_file_witness:
  "map call_file (tool_log (snd (test_style ''/proj'' (Some example_tool) example_read
      example_walk example_state))) = [''/proj/./a.py''] \<and>
   example_read ''/proj/./a.py'' = Inr ''# styletest: ignore E501,x'' \<and>
   map call_ignore (tool_log (snd (test_style ''/proj'' (Some example_tool) example_read
      example_walk example_state))) = [''E226,E241,E265,W291,W293,E501''] \<and>
   list_all (\<lambda>c. last (call_argv c) = ''--ignore='' @ call_ignore c)
     (tool_log (snd (test_style ''/proj'' (Some example_tool) example_read
      example_walk example_state)))"
proof -
  let ?run = "test_style ''/proj'' (Some example_tool) example_read example_walk example_state"
  have run: "?run = (fst ?run, snd ?run)"
    by simp
  have files: "map call_file (tool_log (snd ?run)) = [''/proj/./a.py'']"
    by code_simp
  have rd: "example_read ''/proj/./a.py'' = Inr ''# styletest: ignore E501,x''"
    by (simp add: example_read_def)
  have ign: "map call_ignore (tool_log (snd ?run)) = [''E226,E241,E265,W291,W293,E501'']"
    by code_simp
  from ignore_set_of_checked_file[OF run] obtain new where
    new: "tool_log (snd ?run) = tool_log example_state @ new"
    and each: "\<forall>c \<in> set new. \<exists>content.
        example_read (call_file c) = Inr content \<and>
        call_ignore c = str_join '',''
          ([''E226'', ''E241'', ''E265'', ''W291'', ''W293''] @
           concat (map (\<lambda>line. [w \<leftarrow> line_tokens line. code_shaped w])
             [line \<leftarrow> take 21 (splitlines content). is_ignore_line line])) \<and>
        last (call_argv c) = ''--ignore='' @ call_ignore c \<and>
        (\<forall>w. code_shaped w =
           (\<exists>c ds. w = c # ds \<and> c \<in> set ''EWFCN'' \<and> ds \<noteq> [] \<and>
              list_all isnumeric_char ds))"
    by blast
  have "last (call_argv c) = ''--ignore='' @ call_ignore c" if "c \<in> set new" for c
  proof -
    from each that obtain content where
      "last (call_argv c) = ''--ignore='' @ call_ignore c \<and>
       example_read (call_file c) = Inr content"
      by blast
    then show ?thesis by (rule conjunct1)
  qed
  then have "list_all (\<lambda>c. last (call_argv c) = ''--ignore='' @ call_ignore c) new"
    unfolding list_all_iff by (rule ballI)
  moreover from new have "tool_log (snd ?run) = new"
    by (simp add: example_state_def)
  ultimately have
    "list_all (\<lambda>c. last (call_argv c) = ''--ignore='' @ call_ignore c) (tool_log (snd ?run))"
    by (rule ssubst[rotated])
  with files rd ign show ?thesis
    by (intro conjI)
qed

text \<open>
  The claim as it was stated speaks of a letter followed by digits. The word \<open>E\<close>
  followed by the fraction one half (U+00BD), which is numeric and not a digit, is
  accepted as well and reaches the tool.
\<close>

theorem fraction_word_is_ignored:
  "CHR 0xBD \<notin> set ''0123456789'' \<and>
   get_style_test_options (''# styletest: ignore E'' @ [CHR 0xBD]) =
     (False, [[CHR ''E'', CHR 0xBD]]) \<and>
   map call_ignore (tool_log (snd (test_style ''/proj'' (Some example_tool)
      example_fraction_read [(''/proj'', [], [''a.py''])] example_state))) =
     [''E226,E241,E265,W291,W293,E'' @ [CHR 0xBD]]"
  by code_simp

section \<open>Relative paths\<close>

lemma split_on_append:
  "sep \<notin> set w \<Longrightarrow> split_on sep (w @ sep # rest) = w # split_on sep rest"
  by (induction w) auto

lemma split_on_no_sep: "sep \<notin> set w \<Longrightarrow> split_on sep w = [w]"
  by (induction w) auto

lemma split_on_str_join:
  "cs \<noteq> [] \<Longrightarrow> \<forall>c \<in> set cs. CHR ''/'' \<notin> set c \<Longrightarrow> split_on CHR ''/'' (str_join ''/'' cs) = cs"
proof (induction "''/''" cs rule: str_join.induct)
  case 1
  then show ?case by simp
next
  case (2 w)
  then show ?case by (simp add: split_on_no_sep)
next
  case (3 w v ws)
  then show ?case by (simp add: split_on_append)
qed

lemma str_join_append:
  "rs \<noteq> [] \<Longrightarrow> ms \<noteq> [] \<Longrightarrow> str_join sep (rs @ ms) = str_join sep rs @ sep @ str_join sep ms"
proof (induction sep rs rule: str_join.induct)
  case (1 sep)
  then show ?case by simp
next
  case (2 sep w)
  then show ?case by (cases ms) simp_all
next
  case (3 sep w v ws)
  then show ?case by simp
qed

lemma norm_comps_plain:
  "\<forall>c \<in> set cs. plain c \<Longrightarrow> norm_comps init new cs = new @ cs"
  by (induction cs arbitrary: new) (auto simp: plain_def)

lemma str_join_plain_head:
  assumes "cs \<noteq> []" and "\<forall>c \<in> set cs. plain c"
  shows "\<exists>x xs. str_join ''/'' cs = x # xs \<and> x \<noteq> CHR ''/''"
proof -
  from assms obtain c cs' where cs: "cs = c # cs'" "plain c" by (cases cs) auto
  then obtain x xs where c: "c = x # xs" "x \<noteq> CHR ''/''"
    by (cases c) (auto simp: plain_def)
  show ?thesis
    using cs(1) c by (cases cs') auto
qed

lemma normpath_absolute:
  assumes "cs \<noteq> []" and "\<forall>c \<in> set cs. plain c"
  shows "normpath (CHR ''/'' # str_join ''/'' cs) = CHR ''/'' # str_join ''/'' cs"
proof -
  from str_join_plain_head[OF assms] obtain x xs where
    j: "str_join ''/'' cs = x # xs" "x \<noteq> CHR ''/''"
    by blast
  from assms(2) have nosep: "\<forall>c \<in> set cs. CHR ''/'' \<notin> set c"
    by (simp add: plain_def)
  have sp: "split_on CHR ''/'' (CHR ''/'' # str_join ''/'' cs) = [] # cs"
    using split_on_str_join[OF assms(1) nosep] by simp
  have nc: "norm_comps 1 [] ([] # cs) = cs"
    using norm_comps_plain[OF assms(2), of 1 "[]"] by simp
  have init: "\<not> startswith (CHR ''/'' # str_join ''/'' cs) ''//''"
    using j by simp
  show ?thesis
    unfolding normpath_def Let_def sp
    using init nc by simp
qed

lemma common_len_append: "common_len xs (xs @ ys) = length xs"
  by (induction xs) auto

lemma last_str_join:
  assumes "cs \<noteq> []" and "\<forall>c \<in> set cs. plain c"
  shows "str_join ''/'' cs \<noteq> [] \<and> last (str_join ''/'' cs) \<noteq> CHR ''/''"
  using assms
proof (induction "''/''" cs rule: str_join.induct)
  case 1
  then show ?case by simp
next
  case (2 w)
  then show ?case by (cases w rule: rev_cases) (auto simp: plain_def)
next
  case (3 w v ws)
  then show ?case by simp
qed

lemma endswith_sep: "a \<noteq> [] \<Longrightarrow> endswith a ''/'' = (last a = CHR ''/'')"
  by (cases a rule: rev_cases) (auto simp: endswith_def)

lemma path_join_plain:
  assumes "\<forall>c \<in> set (a # ps). plain c"
  shows "path_join a ps = str_join ''/'' (a # ps)"
proof -
  have "foldl path_join2 (str_join ''/'' done) ps = str_join ''/'' (done @ ps)"
    if "done \<noteq> []" "\<forall>c \<in> set (done @ ps). plain c" for "done"
    using that
  proof (induction ps arbitrary: "done")
    case Nil
    then show ?case by simp
  next
    case (Cons p ps)
    from Cons.prems have d: "str_join ''/'' done \<noteq> []" "last (str_join ''/'' done) \<noteq> CHR ''/''"
      using last_str_join[of "done"] by auto
    from Cons.prems have "plain p" by simp
    then have p: "\<not> startswith p ''/''"
      by (cases p) (auto simp: plain_def)
    have "path_join2 (str_join ''/'' done) p = str_join ''/'' (done @ [p])"
      using d p Cons.prems(1) by (simp add: path_join2_def endswith_sep str_join_append)
    moreover have "foldl path_join2 (str_join ''/'' (done @ [p])) ps = str_join ''/'' ((done @ [p]) @ ps)"
      using Cons.prems by (intro Cons.IH) auto
    ultimately show ?case by simp
  qed
  from this[of "[a]"] assms show ?thesis
    by (simp add: path_join_def)
qed

lemma relpath_strips_root:
  assumes "rs \<noteq> []" and "ms \<noteq> []" and "\<forall>c \<in> set (rs @ ms). plain c"
  shows "relpath dir (CHR ''/'' # str_join ''/'' rs @ CHR ''/'' # str_join ''/'' ms)
           (CHR ''/'' # str_join ''/'' rs) = Inr (str_join ''/'' ms)"
proof -
  let ?root = "CHR ''/'' # str_join ''/'' rs"
  let ?msg = "CHR ''/'' # str_join ''/'' (rs @ ms)"
  have msg: "CHR ''/'' # str_join ''/'' rs @ CHR ''/'' # str_join ''/'' ms = ?msg"
    using assms(1,2) by (simp add: str_join_append)
  from assms(3) have prs: "\<forall>c \<in> set rs. plain c" and pms: "\<forall>c \<in> set ms. plain c"
    by auto
  from assms(3) have nosep: "\<forall>c \<in> set (rs @ ms). CHR ''/'' \<notin> set c" "\<forall>c \<in> set (rs @ ms). c \<noteq> []"
    by (auto simp: plain_def)
  have a_root: "abspath dir ?root = ?root"
    using normpath_absolute[OF assms(1) prs] by (simp add: abspath_def)
  have a_msg: "abspath dir ?msg = ?msg"
    using normpath_absolute[of "rs @ ms"] assms by (simp add: abspath_def)
  have l_root: "[x \<leftarrow> split_on CHR ''/'' ?root. x \<noteq> []] = rs"
    using split_on_str_join[OF assms(1)] nosep by (simp add: filter_id_conv)
  have l_msg: "[x \<leftarrow> split_on CHR ''/'' ?msg. x \<noteq> []] = rs @ ms"
    using split_on_str_join[of "rs @ ms"] assms(1) nosep by (simp add: filter_id_conv)
  obtain m ms' where ms: "ms = m # ms'" using assms(2) by (cases ms) auto
  have "relpath dir ?msg ?root = Inr (path_join m ms')"
    unfolding relpath_def Let_def a_root a_msg l_root l_msg
    by (simp add: common_len_append ms)
  also have "path_join m ms' = str_join ''/'' ms"
    using path_join_plain[of m ms'] pms ms by simp
  finally show ?thesis by (simp add: msg)
qed

text \<open>
  C6. A \<open>write\<close> through the output proxy wrapped around a target: a message that starts
  with the root string is forwarded as its path relative to the root, and then the target
  is flushed; any other message is forwarded unchanged, and then the target is flushed.
  The relative path of a message made of the root, a separator and further plain
  components is what follows that separator. On the stream of the process each such
  \<open>write\<close> adds one entry and one flush.
\<close>

theorem relativizer_write:
  "(startswith msg root \<and> msg \<noteq> [] \<longrightarrow>
      (\<exists>m. relpath (cwd s) msg root = Inr m \<and>
           write_out root (FileForTesting orig) msg s =
             seq (write_out root orig m s) (\<lambda>_. flush_out orig))) \<and>
   (\<not> startswith msg root \<longrightarrow>
      write_out root (FileForTesting orig) msg s =
        seq (write_out root orig msg s) (\<lambda>_. flush_out orig)) \<and>
   (rs \<noteq> [] \<and> ms \<noteq> [] \<and> list_all plain (rs @ ms) \<and>
    root = CHR ''/'' # str_join ''/'' rs \<and> msg = root @ CHR ''/'' # str_join ''/'' ms \<longrightarrow>
      startswith msg root \<and>
      write_out root (FileForTesting Console) msg s =
        (Inr (), s\<lparr>out_written := out_written s @ [str_join ''/'' ms],
                    out_flushes := Suc (out_flushes s)\<rparr>)) \<and>
   (\<not> startswith msg root \<longrightarrow>
      write_out root (FileForTesting Console) msg s =
        (Inr (), s\<lparr>out_written := out_written s @ [msg],
                    out_flushes := Suc (out_flushes s)\<rparr>))"
proof (intro conjI impI)
  assume "startswith msg root \<and> msg \<noteq> []"
  then show "\<exists>m. relpath (cwd s) msg root = Inr m \<and>
           write_out root (FileForTesting orig) msg s =
             seq (write_out root orig m s) (\<lambda>_. flush_out orig)"
    by (auto simp: relpath_def Let_def)
next
  assume "\<not> startswith msg root"
  then show "write_out root (FileForTesting orig) msg s =
        seq (write_out root orig msg s) (\<lambda>_. flush_out orig)"
    by simp
next
  assume "\<not> startswith msg root"
  then show "write_out root (FileForTesting Console) msg s =
        (Inr (), s\<lparr>out_written := out_written s @ [msg],
                    out_flushes := Suc (out_flushes s)\<rparr>)"
    by simp
next
  assume a: "rs \<noteq> [] \<and> ms \<noteq> [] \<and> list_all plain (rs @ ms) \<and>
    root = CHR ''/'' # str_join ''/'' rs \<and> msg = root @ CHR ''/'' # str_join ''/'' ms"
  have pre: "startswith (p @ q) p" for p q :: string
    by (induction p) auto
  from a pre show "startswith msg root" by blast
next
  assume a: "rs \<noteq> [] \<and> ms \<noteq> [] \<and> list_all plain (rs @ ms) \<and>
    root = CHR ''/'' # str_join ''/'' rs \<and> msg = root @ CHR ''/'' # str_join ''/'' ms"
  have pre: "startswith (p @ q) p" for p q :: string
    by (induction p) auto
  from a pre have sw: "startswith msg root" by blast
  from a have "\<forall>c \<in> set (rs @ ms). plain c"
    by (simp add: list_all_iff)
  with a have "relpath (cwd s) msg root = Inr (str_join ''/'' ms)"
    using relpath_strips_root[of rs ms "cwd s"] by simp
  with sw show "write_out root (FileForTesting Console) msg s =
        (Inr (), s\<lparr>out_written := out_written s @ [str_join ''/'' ms],
                    out_flushes := Suc (out_flushes s)\<rparr>)"
    by simp
qed

theorem relativizer_write_witness:
  "startswith ''/proj/tests/a.py:1: E1 bad'' ''/proj'' \<and>
   write_out ''/proj'' (FileForTesting Console) ''/proj/tests/a.py:1: E1 bad'' example_state =
     (Inr (), example_state\<lparr>out_written := out_written example_state @ [''tests/a.py:1: E1 bad''],
                            out_flushes := Suc (out_flushes example_state)\<rparr>) \<and>
   \<not> startswith ''E1 bad in /proj/tests/a.py'' ''/proj'' \<and>
   write_out ''/proj'' (FileForTesting Console) ''E1 bad in /proj/tests/a.py'' example_state =
     (Inr (), example_state\<lparr>out_written := out_written example_state @ [''E1 bad in /proj/tests/a.py''],
                            out_flushes := Suc (out_flushes example_state)\<rparr>) \<and>
   startswith ''/project/x'' ''/proj'' \<and>
   write_out ''/proj'' (FileForTesting Console) ''/project/x'' example_state =
     (Inr (), example_state\<lparr>out_written := out_written example_state @ [''../project/x''],
                            out_flushes := Suc (out_flushes example_state)\<rparr>)"
proof -
  have h: "[''proj''] \<noteq> [] \<and> [''tests'', ''a.py:1: E1 bad''] \<noteq> [] \<and>
      list_all plain ([''proj''] @ [''tests'', ''a.py:1: E1 bad'']) \<and>
      ''/proj'' = CHR ''/'' # str_join ''/'' [''proj''] \<and>
      ''/proj/tests/a.py:1: E1 bad'' =
        ''/proj'' @ CHR ''/'' # str_join ''/'' [''tests'', ''a.py:1: E1 bad'']"
    by (simp add: plain_def)
  have j: "str_join ''/'' [''tests'', ''a.py:1: E1 bad''] = ''tests/a.py:1: E1 bad''"
    by simp
  have n: "\<not> startswith ''E1 bad in /proj/tests/a.py'' ''/proj''"
    by simp
  have p: "startswith ''/project/x'' ''/proj'' \<and> ''/project/x'' \<noteq> []"
    by simp
  have rel: "relpath (cwd example_state) ''/project/x'' ''/proj'' = Inr ''../project/x''"
    by code_simp
  note t = relativizer_write[of "''/proj/tests/a.py:1: E1 bad''" "''/proj''" example_state Console
      "[''proj'']" "[''tests'', ''a.py:1: E1 bad'']"]
  note u = relativizer_write[of "''E1 bad in /proj/tests/a.py''" "''/proj''" example_state Console
      "[''proj'']" "[''tests'', ''a.py:1: E1 bad'']"]
  note v = relativizer_write[of "''/project/x''" "''/proj''" example_state Console
      "[''proj'']" "[''tests'', ''a.py:1: E1 bad'']"]
  from t h have 1: "startswith ''/proj/tests/a.py:1: E1 bad'' ''/proj'' \<and>
      write_out ''/proj'' (FileForTesting Console) ''/proj/tests/a.py:1: E1 bad'' example_state =
        (Inr (), example_state\<lparr>out_written := out_written example_state @
             [str_join ''/'' [''tests'', ''a.py:1: E1 bad'']],
           out_flushes := Suc (out_flushes example_state)\<rparr>)"
    by blast
  from u n have 2: "write_out ''/proj'' (FileForTesting Console) ''E1 bad in /proj/tests/a.py''
        example_state =
        (Inr (), example_state\<lparr>out_written := out_written example_state @
             [''E1 bad in /proj/tests/a.py''],
           out_flushes := Suc (out_flushes example_state)\<rparr>)"
    by blast
  from v p obtain m where m: "relpath (cwd example_state) ''/project/x'' ''/proj'' = Inr m"
    "write_out ''/proj'' (FileForTesting Console) ''/project/x'' example_state =
       seq (write_out ''/proj'' Console m example_state) (\<lambda>_. flush_out Console)"
    by blast
  from m(1) rel have "m = ''../project/x''"
    by simp
  with m(2) have 3: "write_out ''/proj'' (FileForTesting Console) ''/project/x'' example_state =
     (Inr (), example_state\<lparr>out_written := out_written example_state @ [''../project/x''],
                            out_flushes := Suc (out_flushes example_state)\<rparr>)"
    by simp
  from p have 4: "startswith ''/project/x'' ''/proj''"
    by (rule conjunct1)
  from 1 2 n 3 4 show ?thesis
    unfolding j by blast
qed

section \<open>The test directory\<close>

lemma startswith_length: "startswith s p \<Longrightarrow> length p \<le> length s"
  by (induction s p rule: startswith.induct) auto

lemma inside_longer: "inside p q \<Longrightarrow> length p < length q"
  by (auto simp: inside_def dest: startswith_length)

lemma ancestors_shorter: "a \<in> set (ancestors p) \<Longrightarrow> length a < length p"
  by (auto simp: ancestors_def)

lemma map_of_filter_key:
  "map_of [(q, k) \<leftarrow> fs. P q] x = (if P x then map_of fs x else None)"
  by (induction fs) auto

lemma made_keys:
  "fst ` set ((p, Dir) # [(a, Dir). a \<leftarrow> ancestors p, map_of fs a = None] @ fs) \<subseteq>
     insert p (set (ancestors p) \<union> fst ` set fs)"
proof -
  have "fst ` set [(a, Dir). a \<leftarrow> ancestors p, map_of fs a = None] \<subseteq> set (ancestors p)"
    by (induction "ancestors p") auto
  then show ?thesis by auto
qed

lemma makedirs_empty_dir:
  assumes "map_of fs p = None"
    and "\<not> list_ex (\<lambda>a. map_of fs a = Some File) (ancestors p)"
    and "\<not> list_ex (\<lambda>(q, k). inside p q) fs"
  shows "\<exists>fs'. makedirs fs p = Inr fs' \<and> empty_dir fs' p"
proof -
  define fs' where "fs' = (p, Dir) # [(a, Dir). a \<leftarrow> ancestors p, map_of fs a = None] @ fs"
  from assms(1,2) have m: "makedirs fs p = Inr fs'"
    by (simp add: makedirs_def fs'_def)
  have d: "isdir fs' p"
    by (simp add: isdir_def fs'_def)
  have keys: "fst ` set fs' \<subseteq> insert p (set (ancestors p) \<union> fst ` set fs)"
    unfolding fs'_def by (rule made_keys)
  have outside: "\<not> inside p q" if "q \<in> fst ` set fs'" for q
  proof
    assume i: "inside p q"
    then have l: "length p < length q" by (rule inside_longer)
    from that keys have "q = p \<or> q \<in> set (ancestors p) \<or> q \<in> fst ` set fs"
      by blast
    then show False
    proof (elim disjE)
      assume "q = p"
      with l show ?thesis by simp
    next
      assume "q \<in> set (ancestors p)"
      then have "length q < length p" by (rule ancestors_shorter)
      with l show ?thesis by simp
    next
      assume "q \<in> fst ` set fs"
      then obtain k where "(q, k) \<in> set fs" by auto
      with i have "list_ex (\<lambda>(q, k). inside p q) fs"
        unfolding list_ex_iff by blast
      with assms(3) show ?thesis by simp
    qed
  qed
  have "\<not> list_ex (\<lambda>(q, k). inside p q) fs'"
  proof
    assume "list_ex (\<lambda>(q, k). inside p q) fs'"
    then obtain q k where "(q, k) \<in> set fs'" "inside p q"
      unfolding list_ex_iff by blast
    then have "q \<in> fst ` set fs'" by force
    with outside \<open>inside p q\<close> show False by blast
  qed
  with m d show ?thesis
    unfolding empty_dir_def by blast
qed

lemma rmtree_clears:
  assumes "isdir fs p"
  shows "\<exists>fs'. rmtree fs p = Inr fs' \<and> map_of fs' p = None \<and>
           \<not> list_ex (\<lambda>(q, k). inside p q) fs' \<and>
           (\<forall>a \<in> set (ancestors p). map_of fs' a = map_of fs a)"
proof -
  define fs' where "fs' = [(q, k) \<leftarrow> fs. \<not> (q = p \<or> inside p q)]"
  from assms have r: "rmtree fs p = Inr fs'"
    by (simp add: rmtree_def fs'_def)
  have gone: "map_of fs' p = None"
    unfolding fs'_def by (simp add: map_of_filter_key)
  have none: "\<not> list_ex (\<lambda>(q, k). inside p q) fs'"
  proof
    assume "list_ex (\<lambda>(q, k). inside p q) fs'"
    then obtain q k where "(q, k) \<in> set fs'" "inside p q"
      unfolding list_ex_iff by blast
    then show False
      unfolding fs'_def by simp
  qed
  have kept: "map_of fs' a = map_of fs a" if "a \<in> set (ancestors p)" for a
  proof -
    from that have "length a < length p" by (rule ancestors_shorter)
    moreover from this have "\<not> inside p a"
      using inside_longer[of p a] by arith
    ultimately have "\<not> (a = p \<or> inside p a)" by blast
    then show ?thesis
      unfolding fs'_def by (simp add: map_of_filter_key)
  qed
  from r gone none kept show ?thesis by blast
qed

text \<open>
  C4. In a process that has not asked for the test directory before, with an
  application-data provider that returns a path, and with no file at the target path or
  at a path above it: the first call returns the target path, which is then a directory
  with nothing inside (what an earlier run left there is gone), and registers the
  removal at exit. Every later call, in whatever state the process is by then as long as
  the path is still remembered, and whatever the provider would do, returns the same
  path and leaves the whole state, hence the directory and what was put into it, as it
  is.
\<close>

theorem get_test_dir_first_then_same:
  assumes "the_test_dir d = None"
    and "appdata_dir ''imageio'' (disk d) = (Inr base, fs1)"
    and "map_of fs1 (path_join base [''testdir'']) \<noteq> Some File"
    and "\<not> list_ex (\<lambda>a. map_of fs1 a = Some File) (ancestors (path_join base [''testdir'']))"
    and "map_of fs1 (path_join base [''testdir'']) = None \<longrightarrow>
           \<not> list_ex (\<lambda>(q, k). inside (path_join base [''testdir'']) q) fs1"
  shows "(\<exists>d'. get_test_dir appdata_dir d = (Inr (path_join base [''testdir'']), d') \<and>
              the_test_dir d' = Some (path_join base [''testdir'']) \<and>
              empty_dir (disk d') (path_join base [''testdir'']) \<and>
              atexit_hooks d' = atexit_hooks d @ [RmtreeTestDir] \<and>
              get_test_dir later_appdata_dir d' = (Inr (path_join base [''testdir'']), d')) \<and>
         (\<forall>d2. the_test_dir d2 = Some (path_join base [''testdir'']) \<longrightarrow>
              get_test_dir later_appdata_dir d2 = (Inr (path_join base [''testdir'']), d2))"
proof -
  define p where "p = path_join base [''testdir'']"
  have cleared: "\<exists>fs2. (if isdir fs1 p then rmtree fs1 p else Inr fs1) = Inr fs2 \<and>
      map_of fs2 p = None \<and>
      \<not> list_ex (\<lambda>a. map_of fs2 a = Some File) (ancestors p) \<and>
      \<not> list_ex (\<lambda>(q, k). inside p q) fs2"
  proof (cases "isdir fs1 p")
    case True
    from rmtree_clears[OF True] obtain fs2 where
      r: "rmtree fs1 p = Inr fs2" "map_of fs2 p = None"
      "\<not> list_ex (\<lambda>(q, k). inside p q) fs2"
      "\<forall>a \<in> set (ancestors p). map_of fs2 a = map_of fs1 a"
      by blast
    from r(4) assms(4) have "\<not> list_ex (\<lambda>a. map_of fs2 a = Some File) (ancestors p)"
      unfolding list_ex_iff p_def by simp
    with True r show ?thesis by simp
  next
    case False
    with assms(3) have "map_of fs1 p = None"
      unfolding isdir_def p_def by (cases "map_of fs1 (path_join base [''testdir''])") (auto intro: node.exhaust)
    with False assms(4,5) show ?thesis
      unfolding p_def by simp
  qed
  then obtain fs2 where
    c: "(if isdir fs1 p then rmtree fs1 p else Inr fs1) = Inr fs2" "map_of fs2 p = None"
    "\<not> list_ex (\<lambda>a. map_of fs2 a = Some File) (ancestors p)"
    "\<not> list_ex (\<lambda>(q, k). inside p q) fs2"
    by blast
  from makedirs_empty_dir[OF c(2,3,4)] obtain fs3 where
    m: "makedirs fs2 p = Inr fs3" "empty_dir fs3 p"
    by blast
  define d' where "d' = d\<lparr>disk := fs3, the_test_dir := Some p,
                          atexit_hooks := atexit_hooks d @ [RmtreeTestDir]\<rparr>"
  have first: "get_test_dir appdata_dir d = (Inr p, d')"
    using assms(1,2) c(1) m(1)
    by (cases "isdir fs1 p") (simp_all add: get_test_dir_def Let_def p_def[symmetric] d'_def)
  have later: "get_test_dir later_appdata_dir d' = (Inr p, d')"
    by (simp add: get_test_dir_def d'_def)
  have always: "get_test_dir later_appdata_dir d2 = (Inr p, d2)" if "the_test_dir d2 = Some p" for d2
    using that by (simp add: get_test_dir_def)
  have "\<exists>d'. get_test_dir appdata_dir d = (Inr p, d') \<and> the_test_dir d' = Some p \<and>
              empty_dir (disk d') p \<and> atexit_hooks d' = atexit_hooks d @ [RmtreeTestDir] \<and>
              get_test_dir later_appdata_dir d' = (Inr p, d')"
    using first later m(2) by (intro exI[of _ d']) (simp add: d'_def)
  moreover have "\<forall>d2. the_test_dir d2 = Some p \<longrightarrow>
              get_test_dir later_appdata_dir d2 = (Inr p, d2)"
    using always by blast
  ultimately show ?thesis
    unfolding p_def[symmetric] by (rule conjI)
qed

theorem get_test_dir_first_then_same_witness:
  "fst (get_test_dir example_appdata_dir example_dstate) = Inr ''/data/imageio/testdir'' \<and>
   map_of (disk example_dstate) ''/data/imageio/testdir/old.png'' = Some File \<and>
   disk (snd (get_test_dir example_appdata_dir example_dstate)) =
     [(''/data/imageio/testdir'', Dir), (''/data'', Dir), (''/data/imageio'', Dir),
      (''/data/imageio/testdirs'', File)] \<and>
   empty_dir (disk (snd (get_test_dir example_appdata_dir example_dstate)))
     ''/data/imageio/testdir'' \<and>
   get_test_dir example_appdata_dir (snd (get_test_dir example_appdata_dir example_dstate)) =
     (Inr ''/data/imageio/testdir'', snd (get_test_dir example_appdata_dir example_dstate)) \<and>
   map_of (disk example_fresh_dstate) ''/data/imageio/testdir'' = None \<and>
   fst (get_test_dir example_appdata_dir example_fresh_dstate) = Inr ''/data/imageio/testdir'' \<and>
   empty_dir (disk (snd (get_test_dir example_appdata_dir example_fresh_dstate)))
     ''/data/imageio/testdir'' \<and>
   map_of (disk example_used_dstate) ''/data/imageio/testdir/out.png'' = Some File \<and>
   get_test_dir example_appdata_dir example_used_dstate =
     (Inr ''/data/imageio/testdir'', example_used_dstate)"
proof -
  let ?p = "path_join ''/data/imageio'' [''testdir'']"
  have p: "?p = ''/data/imageio/testdir''"
    by code_simp
  have h1: "the_test_dir example_dstate = None"
    by (simp add: example_dstate_def)
  have h2: "example_appdata_dir ''imageio'' (disk example_dstate) =
      (Inr ''/data/imageio'', disk example_dstate)"
    by (simp add: example_appdata_dir_def)
  have h3: "map_of (disk example_dstate) ?p \<noteq> Some File"
    unfolding p by (simp add: example_dstate_def)
  have h4: "\<not> list_ex (\<lambda>a. map_of (disk example_dstate) a = Some File) (ancestors ?p)"
    unfolding p by code_simp
  have h5: "map_of (disk example_dstate) ?p = None \<longrightarrow>
      \<not> list_ex (\<lambda>(q, k). inside ?p q) (disk example_dstate)"
    unfolding p by (simp add: example_dstate_def)
  have g1: "the_test_dir example_fresh_dstate = None"
    by (simp add: example_fresh_dstate_def)
  have g2: "example_appdata_dir ''imageio'' (disk example_fresh_dstate) =
      (Inr ''/data/imageio'', disk example_fresh_dstate)"
    by (simp add: example_appdata_dir_def)
  have g3: "map_of (disk example_fresh_dstate) ?p \<noteq> Some File"
    unfolding p by (simp add: example_fresh_dstate_def)
  have g4: "\<not> list_ex (\<lambda>a. map_of (disk example_fresh_dstate) a = Some File) (ancestors ?p)"
    unfolding p by code_simp
  have g5: "map_of (disk example_fresh_dstate) ?p = None \<longrightarrow>
      \<not> list_ex (\<lambda>(q, k). inside ?p q) (disk example_fresh_dstate)"
    unfolding p by code_simp
  have none: "map_of (disk example_fresh_dstate) ''/data/imageio/testdir'' = None"
    by (simp add: example_fresh_dstate_def)
  have old: "map_of (disk example_dstate) ''/data/imageio/testdir/old.png'' = Some File"
    by (simp add: example_dstate_def)
  have new: "disk (snd (get_test_dir example_appdata_dir example_dstate)) =
     [(''/data/imageio/testdir'', Dir), (''/data'', Dir), (''/data/imageio'', Dir),
      (''/data/imageio/testdirs'', File)]"
    by code_simp
  note t = get_test_dir_first_then_same[where d = example_dstate
      and appdata_dir = example_appdata_dir and base = "''/data/imageio''"
      and ?fs1.0 = "disk example_dstate" and later_appdata_dir = example_appdata_dir,
      OF h1 h2 h3 h4 h5]
  have used: "the_test_dir example_used_dstate = Some ?p"
    unfolding p by (simp add: example_used_dstate_def)
  from t[THEN conjunct2, rule_format, OF used]
  have c: "get_test_dir example_appdata_dir example_used_dstate = (Inr ?p, example_used_dstate)" .
  have kept: "map_of (disk example_used_dstate) ''/data/imageio/testdir/out.png'' = Some File"
    by (simp add: example_used_dstate_def)
  from t[THEN conjunct1]
  obtain d' where
    "get_test_dir example_appdata_dir example_dstate = (Inr ?p, d')"
    "empty_dir (disk d') ?p"
    "get_test_dir example_appdata_dir d' = (Inr ?p, d')"
    by blast
  then have a: "fst (get_test_dir example_appdata_dir example_dstate) = Inr ?p"
    "empty_dir (disk (snd (get_test_dir example_appdata_dir example_dstate))) ?p"
    "get_test_dir example_appdata_dir (snd (get_test_dir example_appdata_dir example_dstate)) =
       (Inr ?p, snd (get_test_dir example_appdata_dir example_dstate))"
    by simp_all
  from get_test_dir_first_then_same[where d = example_fresh_dstate
      and appdata_dir = example_appdata_dir and base = "''/data/imageio''"
      and ?fs1.0 = "disk example_fresh_dstate" and later_appdata_dir = example_appdata_dir,
      OF g1 g2 g3 g4 g5, THEN conjunct1]
  obtain d'' where
    "get_test_dir example_appdata_dir example_fresh_dstate = (Inr ?p, d'')"
    "empty_dir (disk d'') ?p"
    by blast
  then have b: "fst (get_test_dir example_appdata_dir example_fresh_dstate) = Inr ?p"
    "empty_dir (disk (snd (get_test_dir example_appdata_dir example_fresh_dstate))) ?p"
    by simp_all
  from a b old new none kept c show ?thesis
    unfolding p by (intro conjI)
qed

end
